theory Spec2Isabelle
  imports Complex_Main "HOL-Library.Sublist" "HOL-Library.Multiset"
begin

section \<open>Python values used by the research assistant\<close>

text \<open>
  A Python \<open>str\<close> is a sequence of code points. It is embedded as \<^typ>\<open>string\<close>, a
  \<^typ>\<open>char\<close> read as one code point below 256 (the Latin-1 block), so \<open>length\<close> counts
  what Python's \<open>len\<close> counts. The character classes below are Python's own, restricted to
  that block.
\<close>

datatype py_error = KeyError | IndexError | BackendError

text \<open>The slice \<open>xs[:n]\<close>: a negative bound counts from the end of the list.\<close>

definition py_upto :: "int \<Rightarrow> 'a list \<Rightarrow> 'a list" where
  "py_upto n xs =
     (if 0 \<le> n then take (nat n) xs else take (nat (int (length xs) + n)) xs)"

text \<open>\<open>sep.join(parts)\<close>\<close>

fun join :: "string \<Rightarrow> string list \<Rightarrow> string" where
  "join sep [] = []"
| "join sep [x] = x"
| "join sep (x # y # ys) = x @ sep @ join sep (y # ys)"

text \<open>\<open>str.isspace\<close> on one character: tab to carriage return, the four separators
  \<open>0x1C\<close> to \<open>0x1F\<close>, space, NEL and the no-break space.\<close>

definition isspace :: "char \<Rightarrow> bool" where
  "isspace c =
     (let n = (of_char c :: nat)
      in (9 \<le> n \<and> n \<le> 13) \<or> (28 \<le> n \<and> n \<le> 32) \<or> n = 133 \<or> n = 160)"

text \<open>\<open>str.lower\<close>: the capitals \<open>A\<close> to \<open>Z\<close> and the accented capitals \<open>0xC0\<close> to
  \<open>0xDE\<close> (the multiplication sign \<open>0xD7\<close> apart) move up by 32.\<close>

definition lower_char :: "char \<Rightarrow> char" where
  "lower_char c =
     (let n = (of_char c :: nat)
      in if (65 \<le> n \<and> n \<le> 90) \<or> (192 \<le> n \<and> n \<le> 214) \<or> (216 \<le> n \<and> n \<le> 222)
         then char_of (n + 32) else c)"

definition lower :: "string \<Rightarrow> string" where
  "lower s = map lower_char s"

text \<open>\<open>str.strip()\<close> removes white space at both ends.\<close>

definition strip :: "string \<Rightarrow> string" where
  "strip s = rev (dropWhile isspace (rev (dropWhile isspace s)))"

text \<open>\<open>s.split(sep)\<close> for a one-character separator: every separator ends a piece, and
  empty pieces are kept. The second argument is the piece being read.\<close>

fun split_on :: "char \<Rightarrow> string \<Rightarrow> string \<Rightarrow> string list" where
  "split_on sep [] cur = [cur]"
| "split_on sep (c # cs) cur =
     (if c = sep then cur # split_on sep cs [] else split_on sep cs (cur @ [c]))"

text \<open>\<open>s.split()\<close>: pieces between runs of white space, no empty piece.\<close>

fun split_ws :: "string \<Rightarrow> string \<Rightarrow> string list" where
  "split_ws [] cur = (if cur = [] then [] else [cur])"
| "split_ws (c # cs) cur =
     (if isspace c then (if cur = [] then split_ws cs [] else cur # split_ws cs [])
      else split_ws cs (cur @ [c]))"

text \<open>\<open>a in b\<close> on strings is the contiguous-sublist test \<^const>\<open>sublist\<close>.\<close>

abbreviation py_in :: "string \<Rightarrow> string \<Rightarrow> bool" where
  "py_in a b \<equiv> sublist a b"

section \<open>Search results and their deduplication\<close>

text \<open>A search result is the dictionary \<open>{'title': .., 'url': .., 'snippet': ..}\<close>.\<close>

record search_result =
  title :: string
  url :: string
  snippet :: string

text \<open>
  The loop at the end of \<open>SearchAgent.search_and_gather\<close>:
  \<^verbatim>\<open>
  unique_results = []
  seen_urls = set()
  for result in all_results:
      if result['url'] not in seen_urls:
          seen_urls.add(result['url'])
          unique_results.append(result)
  \<close>
  as a recursion over \<open>all_results\<close> that threads the two variables.
\<close>

fun dedup_loop ::
  "search_result list \<Rightarrow> search_result list \<Rightarrow> string set \<Rightarrow> search_result list" where
  "dedup_loop [] unique_results seen_urls = unique_results"
| "dedup_loop (result # rest) unique_results seen_urls =
     (if url result \<notin> seen_urls
      then dedup_loop rest (unique_results @ [result]) (insert (url result) seen_urls)
      else dedup_loop rest unique_results seen_urls)"

definition remove_duplicates :: "search_result list \<Rightarrow> search_result list" where
  "remove_duplicates all_results = dedup_loop all_results [] {}"

text \<open>The positions of a list that hold the first occurrence of their url.\<close>

definition first_positions :: "search_result list \<Rightarrow> nat list" where
  "first_positions xs =
     filter (\<lambda>i. url (xs ! i) \<notin> url ` set (take i xs)) [0..<length xs]"

section \<open>The offline data set\<close>

text \<open>The module-level dictionary \<open>DEMO_SEARCH_RESULTS\<close> of \<open>demo_data.py\<close>, one constant
  per value and the dictionary itself as the list of its items in insertion order, which is
  the order a \<open>for key in DEMO_SEARCH_RESULTS\<close> loop visits. A long literal is written as
  the concatenation of its pieces.\<close>

definition healthcare_results :: "search_result list" where
  "healthcare_results =
     [
      \<lparr>title = ''AI in Healthcare: Transforming Patient Care'',
       url = ''https://example.com/ai-healthcare-1'',
       snippet =
         (''Artificial intelligence is revolutionizing healthcare through improved '' @
          ''diagnostics, personalized treatment plans, and predictive analytics. AI '' @
          ''algorithms can analyze medical images with accuracy comparable to human '' @
          ''radiologists, helping detect diseases like cancer at earlier stages.'')\<rparr>,
      \<lparr>title = ''Machine Learning Applications in Medicine'',
       url = ''https://example.com/ai-healthcare-2'',
       snippet =
         (''Machine learning models are being used to predict patient outcomes, '' @
          ''optimize hospital operations, and assist in drug discovery. These '' @
          ''technologies are helping healthcare providers make more informed '' @
          ''decisions and improve patient care quality.'')\<rparr>,
      \<lparr>title = ''The Future of AI-Powered Healthcare'',
       url = ''https://example.com/ai-healthcare-3'',
       snippet =
         (''From virtual health assistants to robotic surgery, AI is expanding the '' @
          ''possibilities in healthcare. Recent developments include AI systems '' @
          ''that can detect diseases earlier and more accurately than traditional '' @
          ''methods, leading to better patient outcomes.'')\<rparr>,
      \<lparr>title = ''AI Ethics in Medical Practice'',
       url = ''https://example.com/ai-healthcare-4'',
       snippet =
         (''As AI becomes more prevalent in healthcare, ethical considerations '' @
          ''around patient privacy, algorithmic bias, and accountability are '' @
          ''crucial. Medical professionals and policymakers are working to '' @
          ''establish guidelines for responsible AI use.'')\<rparr>,
      \<lparr>title = ''Real-World AI Healthcare Success Stories'',
       url = ''https://example.com/ai-healthcare-5'',
       snippet =
         (''Healthcare institutions worldwide are reporting significant '' @
          ''improvements in patient outcomes using AI. Case studies show reduced '' @
          ''diagnosis times, improved treatment accuracy, and better resource '' @
          ''allocation in hospitals.'')\<rparr>]"

definition intelligence_results :: "search_result list" where
  "intelligence_results =
     [
      \<lparr>title = ''Understanding Artificial Intelligence'',
       url = ''https://example.com/ai-overview'',
       snippet =
         (''Artificial Intelligence (AI) refers to computer systems that can '' @
          ''perform tasks typically requiring human intelligence. This includes '' @
          ''learning, reasoning, problem-solving, and understanding language.'')\<rparr>,
      \<lparr>title = ''AI Technology Trends 2024'',
       url = ''https://example.com/ai-trends'',
       snippet =
         (''The AI landscape is rapidly evolving with breakthroughs in large '' @
          ''language models, computer vision, and autonomous systems. Companies are '' @
          ''investing billions in AI research and development.'')\<rparr>,
      \<lparr>title = ''Applications of AI Across Industries'',
       url = ''https://example.com/ai-applications'',
       snippet =
         (''AI is being applied across healthcare, finance, transportation, '' @
          ''education, and entertainment. From chatbots to self-driving cars, AI '' @
          ''technologies are transforming how we live and work.'')\<rparr>]"

definition learning_results :: "search_result list" where
  "learning_results =
     [
      \<lparr>title = ''Machine Learning Fundamentals'',
       url = ''https://example.com/ml-basics'',
       snippet =
         (''Machine learning is a subset of AI that enables systems to learn and '' @
          ''improve from experience without explicit programming. It uses '' @
          ''algorithms to identify patterns in data.'')\<rparr>,
      \<lparr>title = ''Types of Machine Learning'',
       url = ''https://example.com/ml-types'',
       snippet =
         (''The three main types of machine learning are supervised learning, '' @
          ''unsupervised learning, and reinforcement learning. Each has different '' @
          ''applications and use cases.'')\<rparr>,
      \<lparr>title = ''Real-World ML Applications'',
       url = ''https://example.com/ml-applications'',
       snippet =
         (''Machine learning powers recommendation systems, fraud detection, image '' @
          ''recognition, and natural language processing. Companies use ML to gain '' @
          ''insights from large datasets.'')\<rparr>]"

definition climate_results :: "search_result list" where
  "climate_results =
     [
      \<lparr>title = ''Climate Change: Current State'',
       url = ''https://example.com/climate-overview'',
       snippet =
         (''Global temperatures continue to rise, with 2024 on track to be one of '' @
          ''the warmest years on record. Scientists warn of increasing extreme '' @
          ''weather events and sea level rise.'')\<rparr>,
      \<lparr>title = ''Climate Solutions and Mitigation'',
       url = ''https://example.com/climate-solutions'',
       snippet =
         (''Renewable energy, carbon capture, and sustainable practices offer '' @
          ''pathways to reduce emissions. Countries are implementing policies to '' @
          ''achieve net-zero targets.'')\<rparr>,
      \<lparr>title = ''Impact on Global Ecosystems'',
       url = ''https://example.com/climate-impact'',
       snippet =
         (''Climate change affects biodiversity, agriculture, and human health. '' @
          ''Ecosystems are struggling to adapt to rapid environmental changes.'')\<rparr>]"

definition quantum_results :: "search_result list" where
  "quantum_results =
     [
      \<lparr>title = ''Introduction to Quantum Computing'',
       url = ''https://example.com/quantum-intro'',
       snippet =
         (''Quantum computers use quantum mechanical phenomena to solve complex '' @
          ''problems faster than classical computers. They leverage qubits instead '' @
          ''of traditional bits.'')\<rparr>,
      \<lparr>title = ''Quantum Computing Applications'',
       url = ''https://example.com/quantum-apps'',
       snippet =
         (''Potential applications include cryptography, drug discovery, '' @
          ''optimization problems, and materials science. Major tech companies are '' @
          ''racing to build practical quantum computers.'')\<rparr>,
      \<lparr>title = ''Challenges in Quantum Computing'',
       url = ''https://example.com/quantum-challenges'',
       snippet =
         (''Quantum systems are fragile and require extremely low temperatures. '' @
          ''Error correction and scaling remain significant technical hurdles.'')\<rparr>]"

definition default_results :: "search_result list" where
  "default_results =
     [
      \<lparr>title = ''Research Topic Overview'',
       url = ''https://example.com/overview'',
       snippet =
         (''This topic encompasses various aspects including recent developments, '' @
          ''practical applications, and future implications. Research shows '' @
          ''significant interest and ongoing innovation in this field.'')\<rparr>,
      \<lparr>title = ''Latest Developments and Trends'',
       url = ''https://example.com/trends'',
       snippet =
         (''Current trends indicate growing adoption and increasing investment. '' @
          ''Experts predict continued growth and evolution in the coming years with '' @
          ''new applications emerging regularly.'')\<rparr>,
      \<lparr>title = ''Practical Applications'',
       url = ''https://example.com/applications'',
       snippet =
         (''Real-world implementations demonstrate the value and potential of this '' @
          ''technology. Organizations across industries are finding innovative ways '' @
          ''to leverage these capabilities for competitive advantage.'')\<rparr>,
      \<lparr>title = ''Challenges and Considerations'',
       url = ''https://example.com/challenges'',
       snippet =
         (''While promising, this field faces several challenges including '' @
          ''technical limitations, ethical concerns, and regulatory questions that '' @
          ''need to be addressed.'')\<rparr>,
      \<lparr>title = ''Future Outlook'',
       url = ''https://example.com/future'',
       snippet =
         (''The future looks bright with continued innovation expected. Researchers '' @
          ''and practitioners are optimistic about upcoming breakthroughs and wider '' @
          ''adoption.'')\<rparr>]"

definition DEMO_SEARCH_RESULTS :: "(string \<times> search_result list) list" where
  "DEMO_SEARCH_RESULTS =
     [(''artificial intelligence in healthcare'', healthcare_results),
      (''artificial intelligence'', intelligence_results),
      (''machine learning'', learning_results),
      (''climate change'', climate_results),
      (''quantum computing'', quantum_results),
      (''default'', default_results)]"

text \<open>
  \<open>get_demo_results\<close>: the loop
  \<^verbatim>\<open>
  for key in DEMO_SEARCH_RESULTS:
      if key == "default":
          continue
      if key in query_lower or any(word in query_lower for word in key.split()):
          return DEMO_SEARCH_RESULTS[key][:max_results]
  \<close>
  over the items of a dictionary; \<open>None\<close> when the loop ends without returning.
\<close>

fun demo_match_loop ::
  "(string \<times> search_result list) list \<Rightarrow> string \<Rightarrow> search_result list option" where
  "demo_match_loop [] query_lower = None"
| "demo_match_loop ((key, canned) # rest) query_lower =
     (if key = ''default'' then demo_match_loop rest query_lower
      else if py_in key query_lower \<or> list_ex (\<lambda>word. py_in word query_lower) (split_ws key [])
      then Some canned
      else demo_match_loop rest query_lower)"

definition get_demo_results_in ::
  "(string \<times> search_result list) list \<Rightarrow> string \<Rightarrow> int \<Rightarrow> py_error + search_result list" where
  "get_demo_results_in table query max_results =
     (let query_lower = lower query
      in case demo_match_loop table query_lower of
           Some canned \<Rightarrow> Inr (py_upto max_results canned)
         | None \<Rightarrow>
             (case map_of table ''default'' of
                Some canned \<Rightarrow> Inr (py_upto max_results canned)
              | None \<Rightarrow> Inl KeyError))"

definition get_demo_results :: "string \<Rightarrow> int \<Rightarrow> py_error + search_result list" where
  "get_demo_results query max_results =
     get_demo_results_in DEMO_SEARCH_RESULTS query max_results"

section \<open>The web search tool\<close>

text \<open>
  One entry of what \<open>DDGS.text\<close> yields: a dictionary read with
  \<open>result.get('title', 'No title')\<close>, \<open>result.get('href', '')\<close> and
  \<open>result.get('body', 'No description available')\<close>, so each key may be absent.
\<close>

record ddgs_hit =
  hit_title :: "string option"
  hit_href :: "string option"
  hit_body :: "string option"

text \<open>What one pass through the \<open>try\<close> block of \<open>WebSearchTool.search\<close> meets: the hits of
  the backend, or an exception with its message \<open>str(e)\<close>.\<close>

datatype backend_reply = Hits "ddgs_hit list" | Raises string

text \<open>
  What the tool reads but does not own: the flags \<open>Config.DEMO_MODE\<close> and
  \<open>Config.USE_FALLBACK_ON_ERROR\<close>, the module flag \<open>DEMO_AVAILABLE\<close> (whether
  \<open>demo_data\<close> could be imported), and the search backend, which answers the \<open>n\<close>-th
  request made of it for a query and a result cap.
\<close>

record environment =
  DEMO_MODE :: bool
  USE_FALLBACK_ON_ERROR :: bool
  DEMO_AVAILABLE :: bool
  ddgs_text :: "nat \<Rightarrow> string \<Rightarrow> int \<Rightarrow> backend_reply"

text \<open>The fields of a \<open>WebSearchTool\<close>; \<open>requests\<close> counts the requests made of the backend
  so far.\<close>

record web_search_tool =
  max_results :: int
  use_demo :: bool
  requests :: nat

definition new_web_search_tool :: "environment \<Rightarrow> int \<Rightarrow> web_search_tool" where
  "new_web_search_tool env n = \<lparr>max_results = n, use_demo = DEMO_MODE env, requests = 0\<rparr>"

definition max_retries :: nat where
  "max_retries = 3"

definition hit_result :: "ddgs_hit \<Rightarrow> search_result" where
  "hit_result h =
     \<lparr>title = (case hit_title h of Some t \<Rightarrow> t | None \<Rightarrow> ''No title''),
      url = (case hit_href h of Some u \<Rightarrow> u | None \<Rightarrow> []),
      snippet = (case hit_body h of Some b \<Rightarrow> b | None \<Rightarrow> ''No description available'')\<rparr>"

text \<open>
  The retry loop \<open>for attempt in range(max_retries)\<close>, over the attempts still to make. A
  rate-limit error before the last attempt goes round again; on the last attempt it switches
  the tool to the offline data when that is available and allowed; any other error, and a
  loop that runs out, give the empty list.
\<close>

fun search_attempts ::
  "environment \<Rightarrow> string \<Rightarrow> nat list \<Rightarrow> web_search_tool \<Rightarrow>
   (py_error + search_result list) \<times> web_search_tool" where
  "search_attempts env query [] tool = (Inr [], tool)"
| "search_attempts env query (attempt # rest) tool =
     (let tool' = tool\<lparr>requests := Suc (requests tool)\<rparr>
      in case ddgs_text env (requests tool) query (max_results tool) of
           Hits search_results \<Rightarrow> (Inr (map hit_result search_results), tool')
         | Raises error_msg \<Rightarrow>
             (if py_in ''Ratelimit'' error_msg
              then (if attempt < max_retries - 1
                    then search_attempts env query rest tool'
                    else if DEMO_AVAILABLE env \<and> USE_FALLBACK_ON_ERROR env
                    then (get_demo_results query (max_results tool), tool'\<lparr>use_demo := True\<rparr>)
                    else (Inr [], tool'))
              else (Inr [], tool')))"

definition search ::
  "environment \<Rightarrow> web_search_tool \<Rightarrow> string \<Rightarrow>
   (py_error + search_result list) \<times> web_search_tool" where
  "search env tool query =
     (if use_demo tool \<and> DEMO_AVAILABLE env
      then (get_demo_results query (max_results tool), tool)
      else search_attempts env query [0..<max_retries] tool)"

text \<open>The tool after a run of \<open>search\<close> calls, each made on the tool the one before
  left.\<close>

fun searches ::
  "environment \<Rightarrow> web_search_tool \<Rightarrow> string list \<Rightarrow> web_search_tool" where
  "searches env tool [] = tool"
| "searches env tool (query # rest) = searches env (snd (search env tool query)) rest"

section \<open>The search agent\<close>

text \<open>What the one chat-completion request of \<open>generate_search_queries\<close> comes to: the text
  of the first choice, or any exception raised inside the \<open>try\<close> block.\<close>

datatype llm_reply = Completion string | Failure

definition generate_search_queries ::
  "bool \<Rightarrow> llm_reply \<Rightarrow> string \<Rightarrow> int \<Rightarrow> string list" where
  "generate_search_queries demo_mode reply topic num_queries =
     (if demo_mode
      then (let queries =
                  [topic, topic @ '' latest developments'', topic @ '' practical applications'']
            in py_upto num_queries queries)
      else (case reply of
              Completion content \<Rightarrow>
                (let queries_text = strip content;
                     queries =
                       map strip
                         (filter (\<lambda>q. strip q \<noteq> []) (split_on (CHR 0x0A) queries_text []))
                 in py_upto num_queries queries)
            | Failure \<Rightarrow> [topic, topic @ '' latest news'', topic @ '' applications'']))"

text \<open>The loop \<open>for query in queries: all_results.extend(self.search_tool.search(query))\<close>;
  an exception out of \<open>search\<close> leaves the loop.\<close>

fun search_each ::
  "environment \<Rightarrow> string list \<Rightarrow> web_search_tool \<Rightarrow> search_result list \<Rightarrow>
   (py_error + search_result list) \<times> web_search_tool" where
  "search_each env [] tool all_results = (Inr all_results, tool)"
| "search_each env (query # rest) tool all_results =
     (case search env tool query of
        (Inl e, tool') \<Rightarrow> (Inl e, tool')
      | (Inr found, tool') \<Rightarrow> search_each env rest tool' (all_results @ found))"

record search_data =
  sd_topic :: string
  sd_queries :: "string list"
  sd_results :: "search_result list"
  sd_total_sources :: nat

text \<open>\<open>search_and_gather\<close>; the agent's \<open>demo_mode\<close> is \<open>Config.DEMO_MODE\<close>, and the queries are
  generated with the default \<open>num_queries=3\<close>.\<close>

definition search_and_gather ::
  "environment \<Rightarrow> llm_reply \<Rightarrow> web_search_tool \<Rightarrow> string \<Rightarrow>
   (py_error + search_data) \<times> web_search_tool" where
  "search_and_gather env reply tool topic =
     (let queries = generate_search_queries (DEMO_MODE env) reply topic 3
      in case search_each env queries tool [] of
           (Inl e, tool') \<Rightarrow> (Inl e, tool')
         | (Inr all_results, tool') \<Rightarrow>
             (let unique_results = remove_duplicates all_results
              in (Inr \<lparr>sd_topic = topic, sd_queries = queries,
                        sd_results = unique_results,
                        sd_total_sources = length unique_results\<rparr>, tool')))"

text \<open>A backend that answers every request with a rate-limit error, and an environment
  around it that is live, with the offline data importable and the fallback allowed.\<close>

definition rate_limited_backend :: "nat \<Rightarrow> string \<Rightarrow> int \<Rightarrow> backend_reply" where
  "rate_limited_backend n query cap = Raises ''202 Ratelimit''"

definition rate_limited_env :: environment where
  "rate_limited_env =
     \<lparr>DEMO_MODE = False, USE_FALLBACK_ON_ERROR = True, DEMO_AVAILABLE = True,
      ddgs_text = rate_limited_backend\<rparr>"

section \<open>The text processor\<close>

text \<open>
  A stable sort by descending key, as \<open>sorted(xs, key=.., reverse=True)\<close> and
  \<open>xs.sort(key=.., reverse=True)\<close> are: elements with equal keys keep the order they had.
  An element is put in front of the sorted rest, behind the elements with a strictly greater
  key only.
\<close>

fun insert_desc :: "('a \<Rightarrow> 'k::linorder) \<Rightarrow> 'a \<Rightarrow> 'a list \<Rightarrow> 'a list" where
  "insert_desc key x [] = [x]"
| "insert_desc key x (y # ys) =
     (if key x < key y then y # insert_desc key x ys else x # y # ys)"

definition sorted_desc :: "('a \<Rightarrow> 'k::linorder) \<Rightarrow> 'a list \<Rightarrow> 'a list" where
  "sorted_desc key xs = foldr (insert_desc key) xs []"

subsection \<open>Keywords\<close>

text \<open>The class \<open>\w\<close> of a \<open>str\<close> pattern (alphanumeric characters and the underscore) and
  the class \<open>[a-z]\<close>.\<close>

definition is_word_char :: "char \<Rightarrow> bool" where
  "is_word_char c =
     (let n = (of_char c :: nat)
      in (48 \<le> n \<and> n \<le> 57) \<or> (65 \<le> n \<and> n \<le> 90) \<or> n = 95 \<or> (97 \<le> n \<and> n \<le> 122)
         \<or> n = 170 \<or> n = 178 \<or> n = 179 \<or> n = 181 \<or> n = 185 \<or> n = 186
         \<or> (188 \<le> n \<and> n \<le> 190) \<or> (192 \<le> n \<and> n \<le> 214) \<or> (216 \<le> n \<and> n \<le> 246)
         \<or> 248 \<le> n)"

definition is_az :: "char \<Rightarrow> bool" where
  "is_az c = (let n = (of_char c :: nat) in 97 \<le> n \<and> n \<le> 122)"

text \<open>The maximal runs of word characters of a string, left to right.\<close>

fun word_runs :: "string \<Rightarrow> string \<Rightarrow> string list" where
  "word_runs [] cur = (if cur = [] then [] else [cur])"
| "word_runs (c # cs) cur =
     (if is_word_char c then word_runs cs (cur @ [c])
      else if cur = [] then word_runs cs [] else cur # word_runs cs [])"

text \<open>
  \<open>re.findall(r'\b[a-z]{4,}\b', s)\<close>. A match begins at a word boundary, so at the first
  character of a run of word characters; it takes letters \<open>a\<close> to \<open>z\<close> greedily and must end
  at a word boundary, which inside a run of letters is never the case: the match is the whole
  run, and there is one exactly when the run holds at least four characters, all of them
  letters \<open>a\<close> to \<open>z\<close>.
\<close>

definition findall_words :: "string \<Rightarrow> string list" where
  "findall_words s = filter (\<lambda>w. 4 \<le> length w \<and> list_all is_az w) (word_runs s [])"

definition stop_words :: "string set" where
  "stop_words =
     {''that'', ''this'', ''with'', ''from'', ''have'', ''been'',
      ''will'', ''their'', ''there'', ''what'', ''when'', ''where'',
      ''which'', ''while'', ''who'', ''would'', ''could'', ''should''}"

text \<open>A dictionary that is iterated is the list of its items in insertion order:
  \<open>d.get(k, default)\<close>, and \<open>d[k] = v\<close>, which keeps the place of a key already there and
  puts a new key last.\<close>

definition dict_get :: "('k \<times> 'v) list \<Rightarrow> 'k \<Rightarrow> 'v \<Rightarrow> 'v" where
  "dict_get d k dflt = (case map_of d k of Some v \<Rightarrow> v | None \<Rightarrow> dflt)"

fun dict_set :: "('k \<times> 'v) list \<Rightarrow> 'k \<Rightarrow> 'v \<Rightarrow> ('k \<times> 'v) list" where
  "dict_set [] k v = [(k, v)]"
| "dict_set ((k', v') # d) k v =
     (if k' = k then (k, v) # d else (k', v') # dict_set d k v)"

text \<open>\<^verbatim>\<open>
  for word in words:
      if word not in stop_words:
          word_freq[word] = word_freq.get(word, 0) + 1
  \<close>\<close>

fun count_words :: "string list \<Rightarrow> (string \<times> nat) list \<Rightarrow> (string \<times> nat) list" where
  "count_words [] word_freq = word_freq"
| "count_words (word # rest) word_freq =
     (if word \<notin> stop_words
      then count_words rest (dict_set word_freq word (dict_get word_freq word 0 + 1))
      else count_words rest word_freq)"

text \<open>The distinct elements of a list in the order in which they are first met.\<close>

fun first_seen :: "'a list \<Rightarrow> 'a list" where
  "first_seen [] = []"
| "first_seen (x # xs) = x # filter (\<lambda>y. y \<noteq> x) (first_seen xs)"

definition extract_keywords :: "string \<Rightarrow> int \<Rightarrow> string list" where
  "extract_keywords text top_n =
     (let words = findall_words (lower text);
          word_freq = count_words words [];
          sorted_words = sorted_desc snd word_freq
      in map fst (py_upto top_n sorted_words))"

subsection \<open>Key points\<close>

definition is_terminator :: "char \<Rightarrow> bool" where
  "is_terminator c = (c = CHR ''.'' \<or> c = CHR ''!'' \<or> c = CHR ''?'')"

text \<open>\<open>re.split(r'[.!?]+', text)\<close>: a run of terminators ends one piece, and the pieces at
  both ends are kept even when empty. The flag says that the character before was a
  terminator.\<close>

fun re_split_sentences :: "string \<Rightarrow> string \<Rightarrow> bool \<Rightarrow> string list" where
  "re_split_sentences [] cur in_run = [cur]"
| "re_split_sentences (c # cs) cur in_run =
     (if is_terminator c
      then (if in_run then re_split_sentences cs cur True
            else cur # re_split_sentences cs [] True)
      else re_split_sentences cs (cur @ [c]) False)"

text \<open>\<open>[s.strip() for s in sentences if len(s.strip()) > 20]\<close>\<close>

definition key_point_sentences :: "string \<Rightarrow> string list" where
  "key_point_sentences text =
     map strip (filter (\<lambda>s. 20 < length (strip s)) (re_split_sentences text [] False))"

text \<open>
  The source computes the score with Python floats, which are IEEE 754 binary64 numbers:
  every operation returns the double nearest to the exact result, the one with an even
  significand when two are equally near. A finite double is a rational number, and it is
  embedded as that number; \<open>double_of\<close> is the rounding. The significand of the result has
  53 bits, fewer below \<open>2^-1022\<close>, where the doubles are \<open>2^-1074\<close> apart. A length is at
  most \<open>2^63 - 1\<close> in CPython, so nothing in the score is large enough to overflow.
\<close>

text \<open>The number of binary digits of a positive integer.\<close>

function bit_length :: "int \<Rightarrow> int" where
  "bit_length n = (if n \<le> 0 then 0 else 1 + bit_length (n div 2))"
  by pat_completeness auto
termination
  by (relation "measure nat") auto

declare bit_length.simps [simp del]

definition pow2 :: "int \<Rightarrow> rat" where
  "pow2 e = (if 0 \<le> e then of_int (2 ^ nat e) else 1 / of_int (2 ^ nat (- e)))"

text \<open>The exponent \<open>e\<close> with \<open>2^e \<le> q < 2^(e + 1)\<close>, for a positive \<open>q\<close>: the bit lengths of
  numerator and denominator give it up to one, and a comparison settles it.\<close>

definition bit_gap :: "rat \<Rightarrow> int" where
  "bit_gap q = bit_length (fst (quotient_of q)) - bit_length (snd (quotient_of q))"

definition settle_log2 :: "rat \<Rightarrow> int \<Rightarrow> int" where
  "settle_log2 q k = (if pow2 k \<le> q then k else k - 1)"

definition floor_log2 :: "rat \<Rightarrow> int" where
  "floor_log2 q = settle_log2 q (bit_gap q)"

text \<open>The integer nearest to a rational \<open>r\<close> with floor \<open>f\<close>, the even one of two that are
  equally near.\<close>

definition nearest_even :: "rat \<Rightarrow> int \<Rightarrow> int" where
  "nearest_even r f =
     (if r - of_int f < 1 / 2 then f
      else if 1 / 2 < r - of_int f then f + 1
      else if even f then f else f + 1)"

definition round_half_even :: "rat \<Rightarrow> int" where
  "round_half_even r = nearest_even r \<lfloor>r\<rfloor>"

text \<open>The exponent of the last bit of the doubles around \<open>q\<close>, the multiple of a unit \<open>u\<close>
  nearest to \<open>q\<close>, and the rounding of \<open>q\<close> to a double.\<close>

definition double_exponent :: "rat \<Rightarrow> int" where
  "double_exponent q = max (floor_log2 \<bar>q\<bar> - 52) (- 1074)"

definition nearest_multiple :: "rat \<Rightarrow> rat \<Rightarrow> rat" where
  "nearest_multiple q u = of_int (round_half_even (q / u)) * u"

definition double_of :: "rat \<Rightarrow> rat" where
  "double_of q = (if q = 0 then 0 else nearest_multiple q (pow2 (double_exponent q)))"

text \<open>
  The score of the sentence at place \<open>i\<close> among \<open>n\<close> sentences, \<open>len\<close> characters long:
  \<^verbatim>\<open>
  position_score = 1 - (i / len(sentences))
  length_score = min(len(sentence) / 100, 1.0)
  score = position_score * 0.6 + length_score * 0.4
  \<close>
  with every quotient, difference, product and sum rounded, and \<open>0.6\<close> and \<open>0.4\<close> the doubles
  nearest to these decimals. It is only called inside the loop over a prefix of
  \<open>sentences\<close>, where \<open>n\<close> is positive.
\<close>

definition position_score :: "nat \<Rightarrow> nat \<Rightarrow> rat" where
  "position_score i n = double_of (1 - double_of (of_nat i / of_nat n))"

definition length_score :: "nat \<Rightarrow> rat" where
  "length_score len = min (double_of (of_nat len / 100)) 1"

definition key_point_score :: "nat \<Rightarrow> nat \<Rightarrow> nat \<Rightarrow> rat" where
  "key_point_score i n len =
     double_of (double_of (position_score i n * double_of (6 / 10))
                + double_of (length_score len * double_of (4 / 10)))"

text \<open>\<open>extract_key_points\<close> for a score \<open>score i n len\<close> of any linearly ordered type;
  the source's is \<open>key_point_score\<close>.\<close>

definition extract_key_points_by ::
  "(nat \<Rightarrow> nat \<Rightarrow> nat \<Rightarrow> 'k::linorder) \<Rightarrow> string \<Rightarrow> int \<Rightarrow> string list" where
  "extract_key_points_by score text max_points =
     (let sentences = key_point_sentences text;
          scored_sentences =
            map (\<lambda>(i, sentence). (sentence, score i (length sentences) (length sentence)))
              (enumerate 0 (py_upto (max_points * 2) sentences));
          sorted_sentences = sorted_desc snd scored_sentences
      in map fst (py_upto max_points sorted_sentences))"

definition extract_key_points :: "string \<Rightarrow> int \<Rightarrow> string list" where
  "extract_key_points text max_points = extract_key_points_by key_point_score text max_points"

section \<open>The analyzer agent\<close>

record insights =
  overview :: string
  key_findings :: string
  implications :: string

text \<open>The bullet \<open>U+2022\<close> that starts a finding lies outside the 8-bit character type; it
  is carried as the three bytes of its UTF-8 encoding, and is only written, never read.\<close>

definition bullet :: string where
  "bullet = [CHR 0xE2, CHR 0x80, CHR 0xA2]"

text \<open>\<^verbatim>\<open>
  for result in results[:3]:
      snippet = result['snippet']
      first_sentence = snippet.split('.')[0] + '.'
      overview_parts.append(first_sentence)
  \<close>
  with \<open>[0]\<close> on an empty list as the \<open>IndexError\<close> it is in Python.\<close>

fun overview_loop :: "search_result list \<Rightarrow> string list \<Rightarrow> py_error + string list" where
  "overview_loop [] overview_parts = Inr overview_parts"
| "overview_loop (result # rest) overview_parts =
     (case split_on (CHR ''.'') (snippet result) [] of
        [] \<Rightarrow> Inl IndexError
      | first # _ \<Rightarrow> overview_loop rest (overview_parts @ [first @ ''.'']))"

text \<open>\<open>[s.strip() + '.' for s in snippet.split('.') if len(s.strip()) > 30]\<close>\<close>

definition long_sentences :: "string \<Rightarrow> string list" where
  "long_sentences s =
     map (\<lambda>p. strip p @ ''.'') (filter (\<lambda>p. 30 < length (strip p)) (split_on (CHR ''.'') s []))"

text \<open>\<^verbatim>\<open>
  for result in results[:4]:
      snippet = result['snippet']
      sentences = [...]
      if sentences:
          key_findings.append(f"\<bullet> {sentences[0]}")
  \<close>\<close>

fun findings_loop :: "search_result list \<Rightarrow> string list \<Rightarrow> string list" where
  "findings_loop [] findings = findings"
| "findings_loop (result # rest) findings =
     (case long_sentences (snippet result) of
        [] \<Rightarrow> findings_loop rest findings
      | first # _ \<Rightarrow> findings_loop rest (findings @ [bullet @ '' '' @ first]))"

text \<open>The branch \<open>if self.demo_mode:\<close> of \<open>_synthesize_insights\<close>.\<close>

definition demo_insights :: "string \<Rightarrow> search_result list \<Rightarrow> py_error + insights" where
  "demo_insights topic results =
     (case overview_loop (py_upto 3 results) [] of
        Inl e \<Rightarrow> Inl e
      | Inr overview_parts \<Rightarrow>
          (let overview_text = join '' '' overview_parts;
               key_findings_text = join [CHR 0x0A] (findings_loop (py_upto 4 results) []);
               implications_text =
                 ''The research on '' @ topic @
                 '' shows significant developments and practical applications. '' @
                 (''Organizations are increasingly adopting these technologies to improve '' @
                  ''efficiency and outcomes. '') @
                 ''Continued innovation in this field is expected to drive further advancements.''
           in Inr
                \<lparr>overview =
                   (if overview_text \<noteq> [] then overview_text
                    else ''Research on '' @ topic @
                         '' reveals multiple important aspects and developments.''),
                 key_findings =
                   (if key_findings_text \<noteq> [] then key_findings_text
                    else ''Various perspectives and applications identified in the research.''),
                 implications = implications_text\<rparr>))"

text \<open>The first sentence of a snippet that counts as a finding, in the words of the
  specification with the bound the source has: the first piece between full stops that is,
  once stripped, longer than 30 characters, with a full stop after it.\<close>

definition first_long_sentence :: "string \<Rightarrow> string option" where
  "first_long_sentence s =
     map_option (\<lambda>p. p @ ''.'')
       (find (\<lambda>p. 30 < length p) (map strip (split_on (CHR ''.'') s [])))"

text \<open>\<open>_synthesize_insights\<close>. Outside demo mode the insights come from a generative model;
  that branch is not embedded, and what it comes to (the insights it returns, or the
  exception it ends with) is the argument \<open>model_outcome\<close>.\<close>

definition synthesize_insights ::
  "bool \<Rightarrow> py_error + insights \<Rightarrow> string \<Rightarrow> search_result list \<Rightarrow> py_error + insights" where
  "synthesize_insights demo_mode model_outcome topic results =
     (if demo_mode then demo_insights topic results else model_outcome)"

record analysis =
  an_topic :: string
  an_keywords :: "string list"
  an_key_points :: "string list"
  an_insights :: insights
  an_sources :: "search_result list"

text \<open>\<^verbatim>\<open>
  key_points = []
  for result in results[:5]:
      points = self.text_processor.extract_key_points(result['snippet'], max_points=2)
      key_points.extend(points)
  \<close>\<close>

fun key_points_loop ::
  "(nat \<Rightarrow> nat \<Rightarrow> nat \<Rightarrow> 'k::linorder) \<Rightarrow> search_result list \<Rightarrow> string list \<Rightarrow> string list" where
  "key_points_loop score [] key_points = key_points"
| "key_points_loop score (result # rest) key_points =
     key_points_loop score rest
       (key_points @ extract_key_points_by score (snippet result) 2)"

text \<open>\<open>analyze_sources\<close>, for the score that \<open>extract_key_points\<close> computes.\<close>

definition analyze_sources ::
  "(nat \<Rightarrow> nat \<Rightarrow> nat \<Rightarrow> 'k::linorder) \<Rightarrow> bool \<Rightarrow> py_error + insights \<Rightarrow> search_data \<Rightarrow>
   py_error + analysis" where
  "analyze_sources score demo_mode model_outcome data =
     (let results = sd_results data;
          all_text = join '' '' (map snippet results);
          keywords = extract_keywords all_text 10;
          key_points = key_points_loop score (py_upto 5 results) []
      in case synthesize_insights demo_mode model_outcome (sd_topic data) results of
           Inl e \<Rightarrow> Inl e
         | Inr found \<Rightarrow>
             Inr \<lparr>an_topic = sd_topic data, an_keywords = keywords, an_key_points = key_points,
                  an_insights = found, an_sources = results\<rparr>)"

section \<open>Deduplication keeps first occurrences\<close>

lemma dedup_loop_positions:
  "dedup_loop xs acc seen =
     acc @ map ((!) xs)
       (filter (\<lambda>i. url (xs ! i) \<notin> seen \<union> url ` set (take i xs)) [0..<length xs])"
proof (induction xs arbitrary: acc seen)
  case Nil
  show ?case by simp
next
  case (Cons x xs)
  have shift: "[0..<length (x # xs)] = 0 # map Suc [0..<length xs]"
    by (simp add: upt_conv_Cons map_Suc_upt del: upt_Suc)
  show ?case
    unfolding shift
    by (auto simp: Cons.IH filter_map comp_def simp del: upt_Suc
          intro!: arg_cong2[where f = map] filter_cong)
qed

lemma dedup_loop_urls:
  "url ` set (dedup_loop xs acc seen) = url ` set acc \<union> (url ` set xs - seen)"
  by (induction xs arbitrary: acc seen) auto

lemma dedup_loop_distinct:
  "distinct (map url acc) \<Longrightarrow> url ` set acc \<subseteq> seen \<Longrightarrow>
   distinct (map url (dedup_loop xs acc seen))"
proof (induction xs arbitrary: acc seen)
  case Nil
  then show ?case by simp
next
  case (Cons x xs)
  show ?case
  proof (cases "url x \<in> seen")
    case True
    with Cons show ?thesis by simp
  next
    case False
    have "distinct (map url (acc @ [x]))"
      using Cons.prems False by auto
    moreover have "url ` set (acc @ [x]) \<subseteq> insert (url x) seen"
      using Cons.prems by auto
    ultimately show ?thesis
      using False Cons.IH by simp
  qed
qed

text \<open>What \<open>search_and_gather\<close> returns as its results is the deduplication of all that
  its searches found.\<close>

lemma search_and_gather_results:
  "search_and_gather env reply tool topic = (Inr data, tool') \<Longrightarrow>
   \<exists>all_results.
     search_each env (generate_search_queries (DEMO_MODE env) reply topic 3) tool []
       = (Inr all_results, tool')
     \<and> sd_results data = remove_duplicates all_results
     \<and> sd_total_sources data = length (sd_results data)"
  by (auto simp: search_and_gather_def Let_def split: prod.splits sum.splits)

text \<open>
  Claim C1. For every list of search results, repeated url values or not, the merge step of
  \<open>search_and_gather\<close> returns the results at the positions where a url is met for the first
  time, in the order of the list (a result whose url was met before is dropped); the urls of
  the output are pairwise different and are the urls of the input, and the length of the
  output is the number of distinct urls of the input.
\<close>

theorem remove_duplicates_keeps_first_occurrences:
  "remove_duplicates xs = map ((!) xs) (first_positions xs)
   \<and> distinct (map url (remove_duplicates xs))
   \<and> url ` set (remove_duplicates xs) = url ` set xs
   \<and> length (remove_duplicates xs) = card (url ` set xs)"
proof -
  have pos: "remove_duplicates xs = map ((!) xs) (first_positions xs)"
    by (simp add: remove_duplicates_def first_positions_def dedup_loop_positions)
  have dist: "distinct (map url (remove_duplicates xs))"
    by (simp add: remove_duplicates_def dedup_loop_distinct)
  have urls: "url ` set (remove_duplicates xs) = url ` set xs"
    by (simp add: remove_duplicates_def dedup_loop_urls)
  have "length (remove_duplicates xs) = length (map url (remove_duplicates xs))"
    by simp
  also have "\<dots> = card (set (map url (remove_duplicates xs)))"
    using dist by (rule distinct_card [symmetric])
  also have "\<dots> = card (url ` set xs)"
    using urls by simp
  finally show ?thesis
    using pos dist urls by simp
qed

theorem remove_duplicates_keeps_first_occurrences_witness:
  "remove_duplicates
     [\<lparr>title = ''A'', url = ''u1'', snippet = ''first''\<rparr>,
      \<lparr>title = ''B'', url = ''u2'', snippet = ''second''\<rparr>,
      \<lparr>title = ''C'', url = ''u1'', snippet = ''third''\<rparr>,
      \<lparr>title = ''D'', url = ''u3'', snippet = ''fourth''\<rparr>]
   = [\<lparr>title = ''A'', url = ''u1'', snippet = ''first''\<rparr>,
      \<lparr>title = ''B'', url = ''u2'', snippet = ''second''\<rparr>,
      \<lparr>title = ''D'', url = ''u3'', snippet = ''fourth''\<rparr>]"
proof -
  let ?xs = "[\<lparr>title = ''A'', url = ''u1'', snippet = ''first''\<rparr>,
      \<lparr>title = ''B'', url = ''u2'', snippet = ''second''\<rparr>,
      \<lparr>title = ''C'', url = ''u1'', snippet = ''third''\<rparr>,
      \<lparr>title = ''D'', url = ''u3'', snippet = ''fourth''\<rparr>]"
  have fp: "first_positions ?xs = [0, 1, 3]"
    by code_simp
  have "remove_duplicates ?xs = map ((!) ?xs) (first_positions ?xs)"
    using remove_duplicates_keeps_first_occurrences [of ?xs] by (rule conjunct1)
  then show ?thesis
    unfolding fp by simp
qed

section \<open>The offline lookup\<close>

lemma py_upto_nonneg: "0 \<le> n \<Longrightarrow> py_upto n xs = take (nat n) xs"
  by (simp add: py_upto_def)

lemma py_upto_positive_nonempty: "1 \<le> n \<Longrightarrow> xs \<noteq> [] \<Longrightarrow> py_upto n xs \<noteq> []"
  by (cases xs) (auto simp: py_upto_def nat_le_iff take_Suc_conv_app_nth dest!: take_eq_Nil[THEN iffD1])

lemma demo_match_loop_find:
  "demo_match_loop table q =
     map_option snd
       (find (\<lambda>(key, canned). key \<noteq> ''default'' \<and>
                (py_in key q \<or> (\<exists>word\<in>set (split_ws key []). py_in word q))) table)"
  by (induction table q rule: demo_match_loop.induct) (auto simp: list_ex_iff)

lemma default_entry: "map_of DEMO_SEARCH_RESULTS ''default'' = Some default_results"
  by (simp add: DEMO_SEARCH_RESULTS_def)

lemma demo_lists_nonempty:
  "(key, canned) \<in> set DEMO_SEARCH_RESULTS \<Longrightarrow> canned \<noteq> []"
  by (auto simp: DEMO_SEARCH_RESULTS_def healthcare_results_def intelligence_results_def
        learning_results_def climate_results_def quantum_results_def default_results_def)

lemma demo_match_loop_mem:
  "demo_match_loop table q = Some canned \<Longrightarrow> \<exists>key. (key, canned) \<in> set table"
  by (induction table q rule: demo_match_loop.induct) (auto split: if_splits)

lemma get_demo_results_nonempty:
  assumes "1 \<le> n"
  shows "\<exists>found. get_demo_results query n = Inr found \<and> found \<noteq> []"
proof (cases "demo_match_loop DEMO_SEARCH_RESULTS (lower query)")
  case None
  have "default_results \<noteq> []"
    using demo_lists_nonempty [of "''default''" default_results]
    by (simp add: DEMO_SEARCH_RESULTS_def)
  then show ?thesis
    using None assms
    by (simp add: get_demo_results_def get_demo_results_in_def default_entry
          py_upto_positive_nonempty)
next
  case (Some canned)
  then have "canned \<noteq> []"
    using demo_match_loop_mem demo_lists_nonempty by blast
  then show ?thesis
    using Some assms
    by (simp add: get_demo_results_def get_demo_results_in_def py_upto_positive_nonempty)
qed


text \<open>
  Claim C3. For every query and every \<open>max_results\<close>, \<open>get_demo_results\<close> returns the canned
  list of the first key of the dictionary, other than \<open>default\<close>, that is a substring of the
  lower-cased query or has a white-space-delimited word that is one, and the list under
  \<open>default\<close> when no key is such; either list cut by the slice \<open>[:max_results]\<close>, which for
  \<open>max_results\<close> from 0 on is its first \<open>max_results\<close> entries.
\<close>

theorem get_demo_results_first_match:
  "get_demo_results query n =
     Inr (py_upto n
       (case find (\<lambda>(key, canned). key \<noteq> ''default'' \<and>
                     (py_in key (lower query) \<or>
                      (\<exists>word\<in>set (split_ws key []). py_in word (lower query))))
               DEMO_SEARCH_RESULTS of
          Some (key, canned) \<Rightarrow> canned
        | None \<Rightarrow> default_results))
   \<and> map_of DEMO_SEARCH_RESULTS ''default'' = Some default_results
   \<and> (\<forall>canned :: search_result list.
         0 \<le> n \<longrightarrow> py_upto n canned = take (nat n) canned)"
  by (auto simp: get_demo_results_def get_demo_results_in_def demo_match_loop_find
        default_entry py_upto_nonneg split: option.splits)

theorem get_demo_results_first_match_witness:
  "get_demo_results ''Machine Learning'' 2 = Inr (take 2 healthcare_results)
   \<and> get_demo_results ''Rust borrow checker'' 2 = Inr (take 2 default_results)"
proof -
  have hit: "find (\<lambda>(key, canned). key \<noteq> ''default'' \<and>
                     (py_in key (lower ''Machine Learning'') \<or>
                      (\<exists>word\<in>set (split_ws key []). py_in word (lower ''Machine Learning''))))
               DEMO_SEARCH_RESULTS
             = Some (''artificial intelligence in healthcare'', healthcare_results)"
    by code_simp
  have miss: "find (\<lambda>(key, canned). key \<noteq> ''default'' \<and>
                     (py_in key (lower ''Rust borrow checker'') \<or>
                      (\<exists>word\<in>set (split_ws key []). py_in word (lower ''Rust borrow checker''))))
               DEMO_SEARCH_RESULTS
             = None"
    by code_simp
  show ?thesis
    using get_demo_results_first_match [of "''Machine Learning''" 2]
      get_demo_results_first_match [of "''Rust borrow checker''" 2]
    unfolding hit miss by simp
qed

section \<open>The fallback of the search tool\<close>

lemma upt_max_retries: "[0..<max_retries] = [0, 1, 2]"
  by (simp add: max_retries_def upt_rec)

lemma search_offline:
  "use_demo tool \<Longrightarrow> DEMO_AVAILABLE env \<Longrightarrow>
   search env tool q = (get_demo_results q (max_results tool), tool)"
  by (simp add: search_def)

lemma search_attempts_keep_flag:
  "use_demo tool \<Longrightarrow> use_demo (snd (search_attempts env q attempts tool))"
  by (induction attempts arbitrary: tool) (auto simp: Let_def split: backend_reply.splits)

lemma search_keeps_flag: "use_demo tool \<Longrightarrow> use_demo (snd (search env tool q))"
  by (simp add: search_def search_attempts_keep_flag)

lemma searches_offline:
  "use_demo tool \<Longrightarrow> DEMO_AVAILABLE env \<Longrightarrow> searches env tool qs = tool"
  by (induction qs) (simp_all add: search_offline)

lemma search_falls_back:
  assumes "\<not> use_demo tool" "DEMO_AVAILABLE env" "USE_FALLBACK_ON_ERROR env"
    and "\<forall>k<3. \<exists>msg. ddgs_text env (requests tool + k) q (max_results tool) = Raises msg
                      \<and> py_in ''Ratelimit'' msg"
  shows "search env tool q =
           (get_demo_results q (max_results tool),
            tool\<lparr>requests := requests tool + 3, use_demo := True\<rparr>)"
proof -
  obtain m0 where m0: "ddgs_text env (requests tool) q (max_results tool) = Raises m0"
      "py_in ''Ratelimit'' m0"
    using assms(4) [rule_format, of 0] by auto
  obtain m1 where m1: "ddgs_text env (Suc (requests tool)) q (max_results tool) = Raises m1"
      "py_in ''Ratelimit'' m1"
    using assms(4) [rule_format, of 1] by auto
  obtain m2 where m2: "ddgs_text env (Suc (Suc (requests tool))) q (max_results tool) = Raises m2"
      "py_in ''Ratelimit'' m2"
    using assms(4) [rule_format, of 2] by (auto simp: numeral_2_eq_2)
  show ?thesis
    using assms(1-3) m0 m1 m2
    by (simp add: search_def upt_max_retries Let_def max_retries_def numeral_3_eq_3)
qed


text \<open>
  Claim C2, as amended. On a tool in live mode, with the offline data importable and the
  fallback policy on, three rate-limit errors in a row make \<open>search\<close> set the flag
  \<open>use_demo\<close> and return the offline results of the failed query cut to \<open>max_results\<close>,
  which are not empty when \<open>max_results\<close> is at least 1. From then on every \<open>search\<close>
  returns offline results and leaves the tool as it is. No \<open>search\<close>, in any environment and
  on any tool, clears a flag that is set.
\<close>

theorem search_fallback_is_one_way:
  assumes live: "\<not> use_demo tool"
    and available: "DEMO_AVAILABLE env"
    and allowed: "USE_FALLBACK_ON_ERROR env"
    and limited: "\<forall>k<3. \<exists>msg. ddgs_text env (requests tool + k) q (max_results tool) = Raises msg
                      \<and> py_in ''Ratelimit'' msg"
  shows "search env tool q =
           (get_demo_results q (max_results tool),
            tool\<lparr>requests := requests tool + 3, use_demo := True\<rparr>)
         \<and> use_demo (snd (search env tool q))
         \<and> (1 \<le> max_results tool \<longrightarrow>
              (\<exists>found. fst (search env tool q) = Inr found \<and> found \<noteq> []))
         \<and> (\<forall>later q'. searches env (snd (search env tool q)) later = snd (search env tool q)
               \<and> search env (snd (search env tool q)) q' =
                   (get_demo_results q' (max_results tool), snd (search env tool q)))
         \<and> (\<forall>env' tool' q' later. use_demo tool' \<longrightarrow>
               use_demo (snd (search env' tool' q')) \<and> use_demo (searches env' tool' later))"
proof -
  let ?after = "tool\<lparr>requests := requests tool + 3, use_demo := True\<rparr>"
  have fall: "search env tool q = (get_demo_results q (max_results tool), ?after)"
    using live available allowed limited by (rule search_falls_back)
  have flag: "use_demo (snd (search env tool q))"
    by (simp add: fall)
  have nonempty: "1 \<le> max_results tool \<longrightarrow>
      (\<exists>found. fst (search env tool q) = Inr found \<and> found \<noteq> [])"
    using get_demo_results_nonempty [of "max_results tool" q] by (simp add: fall)
  have later: "\<forall>later q'. searches env (snd (search env tool q)) later = snd (search env tool q)
               \<and> search env (snd (search env tool q)) q' =
                   (get_demo_results q' (max_results tool), snd (search env tool q))"
    using available by (simp add: fall searches_offline search_offline)
  have run: "use_demo t \<Longrightarrow> use_demo (searches e t qs)" for e t qs
    by (induction qs arbitrary: t) (simp_all add: search_keeps_flag)
  have never: "\<forall>env' tool' q' later. use_demo tool' \<longrightarrow>
               use_demo (snd (search env' tool' q')) \<and> use_demo (searches env' tool' later)"
    by (simp add: search_keeps_flag run)
  show ?thesis
    using fall flag nonempty later never by blast
qed

theorem search_fallback_is_one_way_witness:
  "\<not> use_demo \<lparr>max_results = 5, use_demo = False, requests = 0\<rparr>
   \<and> DEMO_AVAILABLE rate_limited_env
   \<and> USE_FALLBACK_ON_ERROR rate_limited_env
   \<and> ddgs_text rate_limited_env 0 ''quantum computing'' 5 = Raises ''202 Ratelimit''
   \<and> ddgs_text rate_limited_env 1 ''quantum computing'' 5 = Raises ''202 Ratelimit''
   \<and> ddgs_text rate_limited_env 2 ''quantum computing'' 5 = Raises ''202 Ratelimit''
   \<and> py_in ''Ratelimit'' ''202 Ratelimit''
   \<and> search rate_limited_env \<lparr>max_results = 5, use_demo = False, requests = 0\<rparr>
        ''quantum computing''
      = (get_demo_results ''quantum computing'' 5,
         \<lparr>max_results = 5, use_demo = True, requests = 3\<rparr>)"
proof -
  let ?tool = "\<lparr>max_results = 5, use_demo = False, requests = 0\<rparr>"
  have live: "\<not> use_demo ?tool"
    by simp
  have available: "DEMO_AVAILABLE rate_limited_env"
    by (simp add: rate_limited_env_def)
  have allowed: "USE_FALLBACK_ON_ERROR rate_limited_env"
    by (simp add: rate_limited_env_def)
  have limited: "\<forall>k<3. \<exists>msg. ddgs_text rate_limited_env (requests ?tool + k)
        ''quantum computing'' (max_results ?tool) = Raises msg \<and> py_in ''Ratelimit'' msg"
    by (simp add: rate_limited_env_def rate_limited_backend_def sublist_Cons_right)
  show ?thesis
    using search_fallback_is_one_way [OF live available allowed limited]
      live available allowed
    by (simp add: rate_limited_env_def rate_limited_backend_def sublist_Cons_right)
qed

text \<open>With \<open>max_results = 0\<close> the fallback sets the flag and returns the empty list.\<close>

theorem search_fallback_empty_counterexample:
  "search rate_limited_env \<lparr>max_results = 0, use_demo = False, requests = 0\<rparr>
     ''machine learning''
   = (Inr [], \<lparr>max_results = 0, use_demo = True, requests = 3\<rparr>)"
  by code_simp

section \<open>The generated queries\<close>

text \<open>
  Claim C5. In offline mode, for every topic, \<open>generate_search_queries\<close> with a count of 3
  returns exactly the topic, the topic followed by \<open>latest developments\<close> and the topic
  followed by \<open>practical applications\<close>; for every count it returns that template cut by the
  slice \<open>[:count]\<close>, which for a count from 0 on is its first \<open>count\<close> entries.
\<close>

theorem generate_search_queries_offline:
  "generate_search_queries True reply topic 3 =
     [topic, topic @ '' latest developments'', topic @ '' practical applications'']
   \<and> generate_search_queries True reply topic num_queries =
       py_upto num_queries
         [topic, topic @ '' latest developments'', topic @ '' practical applications'']
   \<and> (0 \<le> num_queries \<longrightarrow>
        generate_search_queries True reply topic num_queries =
          take (nat num_queries)
            [topic, topic @ '' latest developments'', topic @ '' practical applications''])"
  by (simp add: generate_search_queries_def py_upto_def)

theorem generate_search_queries_offline_witness:
  "generate_search_queries True Failure ''X'' 3 =
     [''X'', ''X latest developments'', ''X practical applications'']
   \<and> (0::int) \<le> 2
   \<and> generate_search_queries True Failure ''X'' 2 = [''X'', ''X latest developments'']"
  using generate_search_queries_offline [of Failure "''X''" 2]
  by (simp add: py_upto_def numeral_2_eq_2)

text \<open>
  Claim C4, as amended. \<open>generate_search_queries\<close> returns a list in every case (the embedding
  has no error result: the offline branch raises nothing and the other branch catches every
  exception). For a topic that is not empty and a count of at least 1, the offline branch
  returns a list that is not empty, of queries that are not empty, of length at most the
  count. For a topic that is not empty and every count, the fallback after a failed model
  request returns a list that is not empty, of queries that are not empty.
\<close>

theorem generate_search_queries_nonempty:
  assumes "topic \<noteq> []"
  shows "(1 \<le> num_queries \<longrightarrow>
            generate_search_queries True reply topic num_queries \<noteq> []
            \<and> (\<forall>q\<in>set (generate_search_queries True reply topic num_queries). q \<noteq> [])
            \<and> int (length (generate_search_queries True reply topic num_queries)) \<le> num_queries)
         \<and> generate_search_queries False Failure topic num_queries \<noteq> []
         \<and> (\<forall>q\<in>set (generate_search_queries False Failure topic num_queries). q \<noteq> [])"
proof -
  let ?template = "[topic, topic @ '' latest developments'', topic @ '' practical applications'']"
  have offline: "generate_search_queries True reply topic num_queries =
      take (nat num_queries) ?template" if "1 \<le> num_queries"
    using that by (simp add: generate_search_queries_def py_upto_def)
  have first: "take (nat num_queries) ?template \<noteq> []" if "1 \<le> num_queries"
  proof -
    have "0 < nat num_queries"
      using that by simp
    then show ?thesis
      by simp
  qed
  have members: "\<forall>q\<in>set (take (nat num_queries) ?template). q \<noteq> []"
    using assms by (auto dest!: in_set_takeD)
  have bound: "int (length (take (nat num_queries) ?template)) \<le> num_queries"
    if "1 \<le> num_queries"
    using that by simp
  have fallback: "generate_search_queries False Failure topic num_queries =
      [topic, topic @ '' latest news'', topic @ '' applications'']"
    by (simp add: generate_search_queries_def)
  have live: "generate_search_queries False Failure topic num_queries \<noteq> []
      \<and> (\<forall>q\<in>set (generate_search_queries False Failure topic num_queries). q \<noteq> [])"
    unfolding fallback using assms by simp
  have "1 \<le> num_queries \<longrightarrow>
            generate_search_queries True reply topic num_queries \<noteq> []
            \<and> (\<forall>q\<in>set (generate_search_queries True reply topic num_queries). q \<noteq> [])
            \<and> int (length (generate_search_queries True reply topic num_queries)) \<le> num_queries"
    using offline first members bound by simp
  then show ?thesis
    using live by blast
qed

theorem generate_search_queries_nonempty_witness:
  "''AI'' \<noteq> [] \<and> (1::int) \<le> 2
   \<and> generate_search_queries True Failure ''AI'' 2 \<noteq> []
   \<and> int (length (generate_search_queries True Failure ''AI'' 2)) \<le> 2
   \<and> generate_search_queries False Failure ''AI'' 2 \<noteq> []
   \<and> generate_search_queries False Failure ''AI'' 0 \<noteq> []"
proof -
  have topic: "''AI'' \<noteq> []"
    by simp
  have cnt: "(1::int) \<le> 2"
    by simp
  show ?thesis
    using generate_search_queries_nonempty [OF topic, of 2 Failure]
      generate_search_queries_nonempty [OF topic, of 0 Failure] topic cnt
    by blast
qed

text \<open>A count of 0 gives the empty list, an empty topic gives an empty query, and the
  fallback returns three queries for a count of 1.\<close>

theorem generate_search_queries_counterexample:
  "generate_search_queries True Failure ''X'' 0 = []
   \<and> generate_search_queries True Failure [] 1 = [[]]
   \<and> generate_search_queries False Failure ''X'' 1 =
       [''X'', ''X latest news'', ''X applications'']"
  by code_simp

section \<open>The insights of demo mode\<close>

lemma split_on_not_Nil: "split_on sep s cur \<noteq> []"
  by (induction s arbitrary: cur) auto

lemma overview_loop_total:
  "\<exists>parts. overview_loop rs acc = Inr (acc @ parts) \<and> (rs \<noteq> [] \<longrightarrow> parts \<noteq> [])
     \<and> (\<forall>p\<in>set parts. p \<noteq> [])"
proof (induction rs arbitrary: acc)
  case Nil
  show ?case by simp
next
  case (Cons r rs)
  obtain first others where sp: "split_on (CHR ''.'') (snippet r) [] = first # others"
    using split_on_not_Nil [of "CHR ''.''" "snippet r" "[]"] by (cases "split_on (CHR ''.'') (snippet r) []") auto
  obtain parts where parts: "overview_loop rs (acc @ [first @ ''.'']) = Inr ((acc @ [first @ ''.'']) @ parts)"
      "\<forall>p\<in>set parts. p \<noteq> []"
    using Cons.IH [of "acc @ [first @ ''.'']"] by blast
  show ?case
    using sp parts by (intro exI [of _ "(first @ ''.'') # parts"]) simp
qed

lemma demo_insights_returns: "\<exists>found. demo_insights topic results = Inr found"
proof -
  obtain parts where "overview_loop (py_upto 3 results) [] = Inr parts"
    using overview_loop_total [of "py_upto 3 results" "[]"] by auto
  then show ?thesis
    by (simp add: demo_insights_def Let_def)
qed

lemma join_nonempty: "xs \<noteq> [] \<Longrightarrow> \<forall>x\<in>set xs. x \<noteq> [] \<Longrightarrow> join sep xs \<noteq> []"
  by (induction sep xs rule: join.induct) auto

lemma join_Nil_iff: "\<forall>x\<in>set xs. x \<noteq> [] \<Longrightarrow> join sep xs = [] \<longleftrightarrow> xs = []"
  using join_nonempty [of xs sep] by (cases xs) auto





lemma long_sentences_first:
  "(case long_sentences s of [] \<Rightarrow> None | first # _ \<Rightarrow> Some first) = first_long_sentence s"
proof -
  have "(case map f (filter (\<lambda>p. P (g p)) ps) of [] \<Rightarrow> None | first # _ \<Rightarrow> Some first)
        = map_option f' (find P (map g ps))"
    if "\<And>p. f p = f' (g p)" for f f' g P and ps :: "string list"
    using that by (induction ps) auto
  from this [of "\<lambda>p. strip p @ ''.''" "\<lambda>p. p @ ''.''" strip "\<lambda>p. 30 < length p"]
  show ?thesis
    by (simp add: long_sentences_def first_long_sentence_def)
qed

lemma findings_loop_map_filter:
  "findings_loop rs acc =
     acc @ map (\<lambda>s. bullet @ '' '' @ s) (List.map_filter (\<lambda>r. first_long_sentence (snippet r)) rs)"
proof (induction rs arbitrary: acc)
  case Nil
  show ?case by (simp add: List.map_filter_simps)
next
  case (Cons r rs)
  show ?case
    using long_sentences_first [of "snippet r", symmetric]
    by (cases "long_sentences (snippet r)") (simp_all add: Cons.IH List.map_filter_simps)
qed

text \<open>
  Claim C9, as amended. In demo mode the key findings are the lines, joined by newlines, made
  of a bullet, a space and, for each of the first 4 results whose snippet has a sentence of
  more than 30 characters, the first such sentence of that snippet; a result with no such
  sentence adds nothing, and when no result has one the generic text is used. A sentence is
  a piece between full stops, measured without the white space at its ends and written with
  a full stop after it.
\<close>

theorem demo_key_findings:
  "\<exists>found. demo_insights topic results = Inr found
     \<and> key_findings found =
         (let bullets = map (\<lambda>s. bullet @ '' '' @ s)
                (List.map_filter (\<lambda>r. first_long_sentence (snippet r)) (take 4 results))
          in if bullets = [] then ''Various perspectives and applications identified in the research.''
             else join [CHR 0x0A] bullets)"
proof -
  obtain parts where parts: "overview_loop (py_upto 3 results) [] = Inr parts"
    using overview_loop_total [of "py_upto 3 results" "[]"] by auto
  let ?bullets = "map (\<lambda>s. bullet @ '' '' @ s)
                (List.map_filter (\<lambda>r. first_long_sentence (snippet r)) (take 4 results))"
  have loop: "findings_loop (py_upto 4 results) [] = ?bullets"
    by (simp add: findings_loop_map_filter py_upto_def)
  have "\<forall>b\<in>set ?bullets. b \<noteq> []"
    by (auto simp: bullet_def)
  then have "join [CHR 0x0A] ?bullets = [] \<longleftrightarrow> ?bullets = []"
    by (rule join_Nil_iff)
  then show ?thesis
    using parts loop by (auto simp: demo_insights_def Let_def)
qed


theorem demo_key_findings_witness:
  "\<exists>found.
     demo_insights ''solar power''
       [\<lparr>title = ''A'', url = ''u1'', snippet = ''Tides turn turbines. Solar panels lower energy bills. More.''\<rparr>,
        \<lparr>title = ''B'', url = ''u2'', snippet = ''Wind power grew fast.''\<rparr>] = Inr found
     \<and> key_findings found = bullet @ '' Solar panels lower energy bills.''"
proof -
  let ?results = "[\<lparr>title = ''A'', url = ''u1'', snippet = ''Tides turn turbines. Solar panels lower energy bills. More.''\<rparr>,
        \<lparr>title = ''B'', url = ''u2'', snippet = ''Wind power grew fast.''\<rparr>]"
  have bullets: "(let bullets = map (\<lambda>s. bullet @ '' '' @ s)
                (List.map_filter (\<lambda>r. first_long_sentence (snippet r)) (take 4 ?results))
          in if bullets = [] then ''Various perspectives and applications identified in the research.''
             else join [CHR 0x0A] bullets) = bullet @ '' Solar panels lower energy bills.''"
    by code_simp
  have "\<exists>found. demo_insights ''solar power'' ?results = Inr found
     \<and> key_findings found =
         (let bullets = map (\<lambda>s. bullet @ '' '' @ s)
                (List.map_filter (\<lambda>r. first_long_sentence (snippet r)) (take 4 ?results))
          in if bullets = [] then ''Various perspectives and applications identified in the research.''
             else join [CHR 0x0A] bullets)"
    by (rule demo_key_findings)
  then show ?thesis
    unfolding bullets .
qed

text \<open>A sentence of exactly 30 characters is not taken up: the key findings are the
  generic text.\<close>

theorem demo_key_findings_counterexample:
  "length ''Solar panels lower energy bill'' = 30
   \<and> map_sum id key_findings
        (demo_insights ''solar power''
           [\<lparr>title = ''A'', url = ''u1'', snippet = ''Solar panels lower energy bill. More.''\<rparr>])
      = Inr ''Various perspectives and applications identified in the research.''"
  by code_simp

section \<open>The stable descending sort\<close>

lemma length_insert_desc: "length (insert_desc key x xs) = Suc (length xs)"
  by (induction xs) auto

lemma length_sorted_desc: "length (sorted_desc key xs) = length xs"
  by (induction xs) (auto simp: sorted_desc_def length_insert_desc)

lemma mset_insert_desc: "mset (insert_desc key x xs) = add_mset x (mset xs)"
  by (induction xs) auto

lemma mset_sorted_desc: "mset (sorted_desc key xs) = mset xs"
  by (induction xs) (auto simp: sorted_desc_def mset_insert_desc)

lemma set_sorted_desc: "set (sorted_desc key xs) = set xs"
  using mset_sorted_desc [of key xs] by (metis set_mset_mset)

lemma set_insert_desc: "set (insert_desc key x xs) = insert x (set xs)"
  using mset_insert_desc [of key x xs] by (metis set_mset_mset set_mset_add_mset_insert)

lemma sorted_insert_desc:
  "sorted_wrt (\<lambda>a b. key b \<le> key a) xs \<Longrightarrow>
   sorted_wrt (\<lambda>a b. key b \<le> key a) (insert_desc key x xs)"
  by (induction xs) (auto simp: set_insert_desc)

lemma sorted_sorted_desc: "sorted_wrt (\<lambda>a b. key b \<le> key a) (sorted_desc key xs)"
  by (induction xs) (auto simp: sorted_desc_def sorted_insert_desc)

lemma filter_insert_desc:
  "filter (\<lambda>y. key y = k) (insert_desc key x xs) =
     (if key x = k then x # filter (\<lambda>y. key y = k) xs else filter (\<lambda>y. key y = k) xs)"
  by (induction xs) auto

lemma sorted_desc_stable:
  "filter (\<lambda>y. key y = k) (sorted_desc key xs) = filter (\<lambda>y. key y = k) xs"
  by (induction xs) (auto simp: sorted_desc_def filter_insert_desc)

section \<open>The rounding to doubles\<close>

text \<open>What \<open>double_of\<close> returns is a multiple of the unit \<open>2^e\<close> of its argument, at most half a
  unit away from it; \<open>floor_log2\<close> is the binary exponent, so that outside the subnormal
  range the multiple has 53 bits.\<close>

lemma pow2_positive: "0 < pow2 e"
  by (simp add: pow2_def)

lemma round_half_even_near: "\<bar>of_int (round_half_even r) - r\<bar> \<le> 1 / 2"
proof -
  have "of_int \<lfloor>r\<rfloor> \<le> r" and "r < of_int \<lfloor>r\<rfloor> + 1"
    by linarith+
  then show ?thesis
    unfolding round_half_even_def nearest_even_def
    by (simp add: abs_if) linarith
qed

lemma nearest_multiple_near:
  assumes "0 < u"
  shows "\<bar>nearest_multiple q u - q\<bar> \<le> u / 2"
proof -
  have "nearest_multiple q u - q = (of_int (round_half_even (q / u)) - q / u) * u"
    using assms by (simp add: nearest_multiple_def field_simps)
  then have "\<bar>nearest_multiple q u - q\<bar> = \<bar>of_int (round_half_even (q / u)) - q / u\<bar> * u"
    using assms by (simp add: abs_mult)
  also have "\<dots> \<le> (1 / 2) * u"
    using round_half_even_near [of "q / u"] assms by (intro mult_right_mono) simp_all
  finally show ?thesis by simp
qed

lemma double_of_near: "\<bar>double_of q - q\<bar> \<le> pow2 (double_exponent q) / 2"
proof (cases "q = 0")
  case True
  then show ?thesis
    using pow2_positive [of "double_exponent 0"] by (simp add: double_of_def)
next
  case False
  then show ?thesis
    using nearest_multiple_near [OF pow2_positive, of q "double_exponent q"]
    by (simp add: double_of_def)
qed

lemma double_of_multiple: "\<exists>m::int. double_of q = of_int m * pow2 (double_exponent q)"
  by (cases "q = 0") (auto simp: double_of_def nearest_multiple_def intro: exI [of _ 0])


lemma pow2_power_int: "pow2 e = 2 powi e"
proof (cases "0 \<le> e")
  case True
  then show ?thesis
    by (simp add: pow2_def power_int_def)
next
  case False
  then show ?thesis
    by (simp add: pow2_def power_int_def inverse_eq_divide power_one_over)
qed

lemma bit_length_bounds:
  assumes "0 < n"
  shows "1 \<le> bit_length n \<and> 2 ^ nat (bit_length n - 1) \<le> n \<and> n < 2 ^ nat (bit_length n)"
  using assms
proof (induction n rule: bit_length.induct)
  case (1 n)
  show ?case
  proof (cases "n = 1")
    case True
    have "bit_length (1 div 2) = 0"
      by (subst bit_length.simps) simp
    then have "bit_length 1 = 1"
      by (subst bit_length.simps) simp
    with True show ?thesis by simp
  next
    case False
    with "1.prems" have half: "0 < n div 2"
      by simp
    have "\<not> n \<le> 0"
      using "1.prems" by simp
    then have IH: "1 \<le> bit_length (n div 2)"
        "2 ^ nat (bit_length (n div 2) - 1) \<le> n div 2"
        "n div 2 < 2 ^ nat (bit_length (n div 2))"
      using "1.IH" half by simp_all
    have len: "bit_length n = 1 + bit_length (n div 2)"
      using "1.prems" by (subst bit_length.simps) simp
    have e1: "nat (bit_length n - 1) = nat (bit_length (n div 2))"
      using len by simp
    have e2: "nat (bit_length (n div 2)) = Suc (nat (bit_length (n div 2) - 1))"
      using IH(1) by simp
    have e3: "nat (bit_length n) = Suc (nat (bit_length (n div 2)))"
      using IH(1) len by simp
    have "(2::int) * 2 ^ nat (bit_length (n div 2) - 1) \<le> n"
      using IH(2) by linarith
    then have low: "2 ^ nat (bit_length n - 1) \<le> n"
      unfolding e1 by (subst e2) simp
    have "n < 2 * 2 ^ nat (bit_length (n div 2))"
      using IH(3) by linarith
    then have high: "n < 2 ^ nat (bit_length n)"
      unfolding e3 by simp
    show ?thesis
      using IH(1) len low high by simp
  qed
qed


lemma floor_log2_bounds:
  assumes "0 < q"
  shows "pow2 (floor_log2 q) \<le> q \<and> q < pow2 (floor_log2 q + 1)"
proof -
  obtain a b where ab: "quotient_of q = (a, b)"
    by (cases "quotient_of q")
  have b: "0 < b"
    using ab by (rule quotient_of_denom_pos)
  have q: "q = of_int a / of_int b"
    using ab by (rule quotient_of_div)
  have a: "0 < a"
    using assms b unfolding q by (simp add: zero_less_divide_iff)
  let ?la = "bit_length a" and ?lb = "bit_length b"
  have la: "1 \<le> ?la" "2 ^ nat (?la - 1) \<le> a" "a < 2 ^ nat ?la"
    using bit_length_bounds [OF a] by simp_all
  have lb: "1 \<le> ?lb" "2 ^ nat (?lb - 1) \<le> b" "b < 2 ^ nat ?lb"
    using bit_length_bounds [OF b] by simp_all
  have pw: "(2::rat) powi e = of_int (2 ^ nat e)" if "0 \<le> e" for e
    using that by (simp add: power_int_def)
  have a_low: "(2::rat) powi (?la - 1) \<le> of_int a"
    using la(1,2) by (simp only: pw of_int_le_iff)
  have a_high: "of_int a < (2::rat) powi ?la"
    using la(1,3) by (simp only: pw of_int_less_iff)
  have b_low: "(2::rat) powi (?lb - 1) \<le> of_int b"
    using lb(1,2) by (simp only: pw of_int_le_iff)
  have b_high: "of_int b < (2::rat) powi ?lb"
    using lb(1,3) by (simp only: pw of_int_less_iff)
  have gap: "bit_gap q = ?la - ?lb"
    by (simp add: bit_gap_def ab)
  have "q < 2 powi ?la / 2 powi (?lb - 1)"
    unfolding q using a a_high b_low by (intro frac_less) simp_all
  also have "\<dots> = 2 powi (?la - (?lb - 1))"
    by (simp add: power_int_diff)
  finally have high: "q < pow2 (bit_gap q + 1)"
    by (simp add: pow2_power_int gap algebra_simps)
  have "2 powi (?la - 1 - ?lb) = (2::rat) powi (?la - 1) / 2 powi ?lb"
    by (simp add: power_int_diff)
  also have "\<dots> \<le> q"
    unfolding q using a a_low b b_high by (intro frac_le) simp_all
  finally have low: "pow2 (bit_gap q - 1) \<le> q"
    by (simp add: pow2_power_int gap algebra_simps)
  show ?thesis
    using low high by (simp add: floor_log2_def settle_log2_def)
qed


lemma pow2_add: "pow2 (a + b) = pow2 a * pow2 b"
  by (simp add: pow2_power_int power_int_add)

lemma double_of_significand:
  assumes "q \<noteq> 0" and "- 1022 \<le> floor_log2 \<bar>q\<bar>"
  shows "pow2 52 * pow2 (double_exponent q) \<le> \<bar>q\<bar>
         \<and> \<bar>q\<bar> < pow2 53 * pow2 (double_exponent q)"
proof -
  have e: "double_exponent q = floor_log2 \<bar>q\<bar> - 52"
    using assms(2) by (simp add: double_exponent_def)
  have "0 < \<bar>q\<bar>"
    using assms(1) by simp
  then have "pow2 (floor_log2 \<bar>q\<bar>) \<le> \<bar>q\<bar>" and "\<bar>q\<bar> < pow2 (floor_log2 \<bar>q\<bar> + 1)"
    using floor_log2_bounds [of "\<bar>q\<bar>"] by simp_all
  moreover have "pow2 52 * pow2 (double_exponent q) = pow2 (floor_log2 \<bar>q\<bar>)"
    unfolding e by (simp only: pow2_add [symmetric]) simp
  moreover have "pow2 53 * pow2 (double_exponent q) = pow2 (floor_log2 \<bar>q\<bar> + 1)"
    unfolding e by (simp only: pow2_add [symmetric]) (simp add: add.commute)
  ultimately show ?thesis
    by simp
qed

section \<open>Key points\<close>

lemma length_py_upto: "0 \<le> n \<Longrightarrow> int (length (py_upto n xs)) \<le> n"
  by (simp add: py_upto_def)

lemma set_py_upto: "set (py_upto n xs) \<subseteq> set xs"
  by (auto simp: py_upto_def dest: in_set_takeD)

lemma key_point_sentences_long: "s \<in> set (key_point_sentences text) \<Longrightarrow> 20 < length s"
  by (auto simp: key_point_sentences_def)

lemma scored_fst:
  "map fst (map (\<lambda>(i, sentence). (sentence, f i sentence)) (enumerate 0 xs)) = xs"
  by (simp add: enumerate_eq_zip comp_def case_prod_unfold map_snd_zip flip: zip_map_fst_snd)


lemma extract_key_points_by_members:
  "set (extract_key_points_by score text n) \<subseteq> set (key_point_sentences text)"
proof -
  let ?cands = "key_point_sentences text"
  let ?scored = "map (\<lambda>(i, sentence). (sentence, score i (length ?cands) (length sentence)))
                   (enumerate 0 (py_upto (n * 2) ?cands))"
  have "set (extract_key_points_by score text n) \<subseteq> fst ` set (sorted_desc snd ?scored)"
    using set_py_upto [of n "sorted_desc snd ?scored"]
    by (auto simp: extract_key_points_by_def Let_def)
  also have "\<dots> = fst ` set ?scored"
    by (simp only: set_sorted_desc)
  also have "\<dots> = set (map fst ?scored)"
    by (simp only: set_map)
  also have "\<dots> = set (py_upto (n * 2) ?cands)"
    by (simp only: scored_fst)
  also have "\<dots> \<subseteq> set ?cands"
    by (rule set_py_upto)
  finally show ?thesis .
qed

lemma extract_key_points_by_length:
  "0 \<le> n \<Longrightarrow> int (length (extract_key_points_by score text n)) \<le> n"
  by (simp add: extract_key_points_by_def Let_def length_py_upto)

lemma re_split_sentences_pieces:
  assumes "\<forall>c\<in>set cur. \<not> is_terminator c"
    and "p \<in> set (re_split_sentences s cur in_run)"
  shows "\<forall>c\<in>set p. \<not> is_terminator c"
  using assms
proof (induction s arbitrary: cur in_run)
  case Nil
  then show ?case by simp
next
  case (Cons a s)
  show ?case
  proof (cases "is_terminator a")
    case False
    then have "p \<in> set (re_split_sentences s (cur @ [a]) False)"
      using Cons.prems(2) by simp
    moreover have "\<forall>c\<in>set (cur @ [a]). \<not> is_terminator c"
      using Cons.prems(1) False by simp
    ultimately show ?thesis
      by (rule Cons.IH [rotated])
  next
    case True
    show ?thesis
    proof (cases in_run)
      case True
      with \<open>is_terminator a\<close> have "p \<in> set (re_split_sentences s cur True)"
        using Cons.prems(2) by simp
      with Cons.prems(1) show ?thesis
        by (rule Cons.IH)
    next
      case False
      with \<open>is_terminator a\<close> have "p = cur \<or> p \<in> set (re_split_sentences s [] True)"
        using Cons.prems(2) by simp
      then show ?thesis
      proof
        assume "p = cur"
        with Cons.prems(1) show ?thesis by simp
      next
        assume "p \<in> set (re_split_sentences s [] True)"
        moreover have "\<forall>c\<in>set ([]::string). \<not> is_terminator c"
          by simp
        ultimately show ?thesis
          by (rule Cons.IH [rotated])
      qed
    qed
  qed
qed

lemma re_split_sentences_concat:
  "concat (re_split_sentences s cur in_run) = cur @ filter (\<lambda>c. \<not> is_terminator c) s"
  by (induction s cur in_run rule: re_split_sentences.induct) auto

lemma set_strip: "set (strip s) \<subseteq> set s"
proof -
  have "set (strip s) \<subseteq> set (dropWhile isspace s)"
    by (auto simp: strip_def dest: set_dropWhileD)
  also have "\<dots> \<subseteq> set s"
    by (auto dest: set_dropWhileD)
  finally show ?thesis .
qed

lemma key_point_sentences_no_terminator:
  assumes "s \<in> set (key_point_sentences text)"
  shows "\<forall>c\<in>set s. \<not> is_terminator c"
proof -
  obtain p where p: "p \<in> set (re_split_sentences text [] False)" and s: "s = strip p"
    using assms by (auto simp: key_point_sentences_def)
  have "\<forall>c\<in>set p. \<not> is_terminator c"
    using _ p by (rule re_split_sentences_pieces) simp
  then show ?thesis
    using set_strip [of p] s by auto
qed

text \<open>The ranking, for any score.\<close>

lemma extract_key_points_by_ranked:
  assumes "0 \<le> max_points"
  shows "\<exists>ranked.
           mset ranked =
             mset (map (\<lambda>(i, sentence).
                          (sentence,
                           score i (length (key_point_sentences text)) (length sentence)))
                     (enumerate 0 (take (nat (2 * max_points)) (key_point_sentences text))))
           \<and> sorted_wrt (\<lambda>a b. snd b \<le> snd a) ranked
           \<and> (\<forall>k. filter (\<lambda>p. snd p = k) ranked =
                    filter (\<lambda>p. snd p = k)
                      (map (\<lambda>(i, sentence).
                              (sentence,
                               score i (length (key_point_sentences text)) (length sentence)))
                         (enumerate 0 (take (nat (2 * max_points)) (key_point_sentences text)))))
           \<and> extract_key_points_by score text max_points = map fst (take (nat max_points) ranked)
           \<and> int (length (extract_key_points_by score text max_points)) \<le> max_points
           \<and> (\<forall>s\<in>set (extract_key_points_by score text max_points).
                 20 < length s \<and> s \<in> set (key_point_sentences text))
           \<and> key_point_sentences text =
               map strip (filter (\<lambda>s. 20 < length (strip s)) (re_split_sentences text [] False))"
proof -
  let ?scored = "map (\<lambda>(i, sentence).
                          (sentence,
                           score i (length (key_point_sentences text)) (length sentence)))
                     (enumerate 0 (take (nat (2 * max_points)) (key_point_sentences text)))"
  have twice: "py_upto (max_points * 2) (key_point_sentences text) =
      take (nat (2 * max_points)) (key_point_sentences text)"
    using assms by (simp add: py_upto_def mult.commute)
  have once: "py_upto max_points ranked = take (nat max_points) ranked" for ranked :: "(string \<times> 'a) list"
    using assms by (simp add: py_upto_def)
  have result: "extract_key_points_by score text max_points =
      map fst (take (nat max_points) (sorted_desc snd ?scored))"
    by (simp only: extract_key_points_by_def Let_def twice once)
  have members: "\<forall>s\<in>set (extract_key_points_by score text max_points).
                 20 < length s \<and> s \<in> set (key_point_sentences text)"
    using extract_key_points_by_members [of score "text" max_points] key_point_sentences_long
    by blast
  show ?thesis
    using result members extract_key_points_by_length [OF assms, of score "text"]
      mset_sorted_desc [of snd ?scored] sorted_sorted_desc [of snd ?scored]
      sorted_desc_stable [of snd _ ?scored]
    by (intro exI [of _ "sorted_desc snd ?scored"]) (simp add: key_point_sentences_def)
qed

text \<open>The source's floats at work: of three sentences, the first 30 and the second 80
  characters long, the first scores \<open>0.72\<close> and the second \<open>0.7200000000000001\<close>, where exact
  arithmetic gives \<open>0.72\<close> twice.\<close>

lemma key_point_score_rounding:
  "key_point_score 0 3 30 = 3242591731706757 / 4503599627370496
   \<and> key_point_score 1 3 80 = 6485183463413515 / 9007199254740992
   \<and> key_point_score 0 3 30 < key_point_score 1 3 80"
  by code_simp

text \<open>
  Claim C7, as amended. For every text and every \<open>max_points\<close> from 0 on,
  \<open>extract_key_points\<close> splits the text at runs of the terminators \<open>.\<close>, \<open>!\<close> and \<open>?\<close>,
  strips the pieces and keeps those longer than 20 characters; it scores each of the first
  \<open>2 * max_points\<close> of them as \<open>0.6 * (1 - index / total_sentences) + 0.4 * min(length / 100,
  1.0)\<close>, computed in binary floating point with every operation rounded to the nearest
  double, and returns the first \<open>max_points\<close> sentences of their ranking by descending score,
  sentences of equal score in the order of the text: a permutation of the scored sentences,
  descending, that keeps the order within each score. So it returns at most \<open>max_points\<close>
  sentences, each longer than 20 characters and free of terminators.
\<close>

theorem extract_key_points_ranked:
  assumes "0 \<le> max_points"
  shows "\<exists>ranked.
           mset ranked =
             mset (map (\<lambda>(i, sentence).
                          (sentence,
                           key_point_score i (length (key_point_sentences text))
                             (length sentence)))
                     (enumerate 0 (take (nat (2 * max_points)) (key_point_sentences text))))
           \<and> sorted_wrt (\<lambda>a b. snd b \<le> snd a) ranked
           \<and> (\<forall>k. filter (\<lambda>p. snd p = k) ranked =
                    filter (\<lambda>p. snd p = k)
                      (map (\<lambda>(i, sentence).
                              (sentence,
                               key_point_score i (length (key_point_sentences text))
                                 (length sentence)))
                         (enumerate 0 (take (nat (2 * max_points)) (key_point_sentences text)))))
           \<and> extract_key_points text max_points = map fst (take (nat max_points) ranked)
           \<and> int (length (extract_key_points text max_points)) \<le> max_points
           \<and> (\<forall>s\<in>set (extract_key_points text max_points).
                 20 < length s \<and> s \<in> set (key_point_sentences text)
                 \<and> (\<forall>c\<in>set s. \<not> is_terminator c))
           \<and> key_point_sentences text =
               map strip (filter (\<lambda>s. 20 < length (strip s)) (re_split_sentences text [] False))
           \<and> (\<forall>i n len.
                 key_point_score i n len =
                   double_of
                     (double_of (double_of (1 - double_of (of_nat i / of_nat n))
                                 * double_of (6 / 10))
                      + double_of (min (double_of (of_nat len / 100)) 1 * double_of (4 / 10))))"
proof -
  let ?scored = "map (\<lambda>(i, sentence).
                          (sentence,
                           key_point_score i (length (key_point_sentences text))
                             (length sentence)))
                     (enumerate 0 (take (nat (2 * max_points)) (key_point_sentences text)))"
  obtain ranked where ranked:
      "mset ranked = mset ?scored"
      "sorted_wrt (\<lambda>a b. snd b \<le> snd a) ranked"
      "\<forall>k. filter (\<lambda>p. snd p = k) ranked = filter (\<lambda>p. snd p = k) ?scored"
      "extract_key_points_by key_point_score text max_points =
         map fst (take (nat max_points) ranked)"
      "int (length (extract_key_points_by key_point_score text max_points)) \<le> max_points"
      "\<forall>s\<in>set (extract_key_points_by key_point_score text max_points).
         20 < length s \<and> s \<in> set (key_point_sentences text)"
      "key_point_sentences text =
         map strip (filter (\<lambda>s. 20 < length (strip s)) (re_split_sentences text [] False))"
    using extract_key_points_by_ranked [OF assms, of key_point_score "text"] by blast
  have clean: "\<forall>s\<in>set (extract_key_points_by key_point_score text max_points).
         20 < length s \<and> s \<in> set (key_point_sentences text)
         \<and> (\<forall>c\<in>set s. \<not> is_terminator c)"
    using ranked(6) key_point_sentences_no_terminator by blast
  have formula: "\<forall>i n len.
                 key_point_score i n len =
                   double_of
                     (double_of (double_of (1 - double_of (of_nat i / of_nat n))
                                 * double_of (6 / 10))
                      + double_of (min (double_of (of_nat len / 100)) 1 * double_of (4 / 10)))"
    by (simp add: key_point_score_def position_score_def length_score_def)
  show ?thesis
    unfolding extract_key_points_def
  proof (intro exI [of _ ranked] conjI)
    show "mset ranked = mset ?scored" by (rule ranked(1))
    show "sorted_wrt (\<lambda>a b. snd b \<le> snd a) ranked" by (rule ranked(2))
    show "\<forall>k. filter (\<lambda>p. snd p = k) ranked = filter (\<lambda>p. snd p = k) ?scored"
      by (rule ranked(3))
    show "extract_key_points_by key_point_score text max_points =
         map fst (take (nat max_points) ranked)" by (rule ranked(4))
    show "int (length (extract_key_points_by key_point_score text max_points)) \<le> max_points"
      by (rule ranked(5))
    show "\<forall>s\<in>set (extract_key_points_by key_point_score text max_points).
         20 < length s \<and> s \<in> set (key_point_sentences text)
         \<and> (\<forall>c\<in>set s. \<not> is_terminator c)" by (rule clean)
    show "key_point_sentences text =
         map strip (filter (\<lambda>s. 20 < length (strip s)) (re_split_sentences text [] False))"
      by (rule ranked(7))
    show "\<forall>i n len.
                 key_point_score i n len =
                   double_of
                     (double_of (double_of (1 - double_of (of_nat i / of_nat n))
                                 * double_of (6 / 10))
                      + double_of (min (double_of (of_nat len / 100)) 1 * double_of (4 / 10)))"
      by (rule formula)
  qed
qed

theorem extract_key_points_ranked_witness:
  "(0::int) \<le> 1
   \<and> extract_key_points
        (''Solar panels lower energy bill. '' @
         ''Battery storage lets a grid keep the evening lights on after the sun has set low. '' @
         ''Offshore wind grew by a third last year.'') 1
      = [''Battery storage lets a grid keep the evening lights on after the sun has set low'']
   \<and> int (length (extract_key_points
        (''Solar panels lower energy bill. '' @
         ''Battery storage lets a grid keep the evening lights on after the sun has set low. '' @
         ''Offshore wind grew by a third last year.'') 1)) \<le> 1"
proof -
  let ?text = "''Solar panels lower energy bill. '' @
         ''Battery storage lets a grid keep the evening lights on after the sun has set low. '' @
         ''Offshore wind grew by a third last year.''"
  have bound: "(0::int) \<le> 1"
    by simp
  have run: "extract_key_points ?text 1 =
      [''Battery storage lets a grid keep the evening lights on after the sun has set low'']"
    by code_simp
  have "int (length (extract_key_points ?text 1)) \<le> 1"
    using extract_key_points_ranked [OF bound, of ?text] by blast
  then show ?thesis
    using bound run by blast
qed

text \<open>A piece of exactly 20 characters is dropped, and a negative \<open>max_points\<close> can return
  more sentences than its value: \<open>- 1\<close> on four sentences returns one.\<close>

theorem extract_key_points_counterexample:
  "length ''Wind power grew fast'' = 20
   \<and> extract_key_points ''Wind power grew fast. Tides turn turbines.'' 5 = []
   \<and> extract_key_points
        (''Solar panels lower energy bills. Offshore wind grew by a third last year. '' @
         ''Solar panels lower energy bills for most households. '' @
         ''Offshore wind grew by a third last year again.'') (- 1)
      = [''Solar panels lower energy bills'']"
  by code_simp

section \<open>The key points of an analysis\<close>

lemma key_points_loop_concat:
  "key_points_loop score rs acc =
     acc @ concat (map (\<lambda>r. extract_key_points_by score (snippet r) 2) rs)"
  by (induction rs arbitrary: acc) auto

lemma length_concat_bound:
  "(\<And>x. length (f x) \<le> k) \<Longrightarrow> length (concat (map f xs)) \<le> k * length xs"
proof (induction xs)
  case Nil
  show ?case by simp
next
  case (Cons x xs)
  have "length (f x) \<le> k"
    by (rule Cons.prems)
  moreover have "length (concat (map f xs)) \<le> k * length xs"
    using Cons.prems by (rule Cons.IH)
  ultimately show ?case by simp
qed

lemma two_points: "length (extract_key_points_by score text 2) \<le> 2"
  using extract_key_points_by_length [of 2 score "text"] by simp

text \<open>
  Claim C10. For every search data, \<open>analyze_sources\<close> returns key points of length at most
  10: they are the key points of the first 5 results only, at most 2 for each. In demo mode
  it always returns; outside it, whenever the synthesis of insights does.
\<close>

theorem analyze_sources_key_points:
  "(\<exists>found. analyze_sources score True model_outcome data = Inr found)
   \<and> (\<forall>found. analyze_sources score demo_mode model_outcome data = Inr found \<longrightarrow>
         length (an_key_points found) \<le> 10
         \<and> an_key_points found =
             concat (map (\<lambda>r. extract_key_points_by score (snippet r) 2)
                       (take 5 (sd_results data))))
   \<and> (\<forall>text. length (extract_key_points_by score text 2) \<le> 2)"
proof -
  let ?points = "concat (map (\<lambda>r. extract_key_points_by score (snippet r) 2)
                       (take 5 (sd_results data)))"
  have loop: "key_points_loop score (py_upto 5 (sd_results data)) [] = ?points"
    by (simp add: key_points_loop_concat py_upto_def)
  have "length ?points \<le> 2 * length (take 5 (sd_results data))"
    by (rule length_concat_bound) (rule two_points)
  then have bound: "length ?points \<le> 10"
    by simp
  obtain found where found: "demo_insights (sd_topic data) (sd_results data) = Inr found"
    using demo_insights_returns [of "sd_topic data" "sd_results data"] by blast
  have returns: "\<exists>found. analyze_sources score True model_outcome data = Inr found"
    by (simp add: analyze_sources_def synthesize_insights_def found Let_def)
  have shape: "\<forall>found. analyze_sources score demo_mode model_outcome data = Inr found \<longrightarrow>
         length (an_key_points found) \<le> 10 \<and> an_key_points found = ?points"
    using bound
    by (auto simp: analyze_sources_def Let_def loop split: sum.splits)
  show ?thesis
    using returns shape two_points by blast
qed


theorem analyze_sources_key_points_witness:
  "\<exists>found.
     analyze_sources key_point_score True (Inl BackendError)
       \<lparr>sd_topic = ''machine learning'', sd_queries = [''machine learning''],
        sd_results = learning_results, sd_total_sources = 3\<rparr> = Inr found
     \<and> length (an_key_points found) \<le> 10"
  using analyze_sources_key_points
    [of key_point_score "Inl BackendError"
        "\<lparr>sd_topic = ''machine learning'', sd_queries = [''machine learning''],
          sd_results = learning_results, sd_total_sources = 3\<rparr>" True]
  by blast

section \<open>Keywords\<close>

lemma set_first_seen: "set (first_seen xs) = set xs"
  by (induction xs) auto

lemma distinct_first_seen: "distinct (first_seen xs)"
  by (induction xs) (auto simp: set_first_seen)

lemma first_seen_snoc:
  "first_seen (xs @ [x]) = (if x \<in> set xs then first_seen xs else first_seen xs @ [x])"
  by (induction xs) auto

lemma dict_get_counted:
  "dict_get (map (\<lambda>v. (v, f v)) ks) w d = (if w \<in> set ks then f w else d)"
  by (induction ks) (auto simp: dict_get_def)

lemma dict_set_present:
  "distinct ks \<Longrightarrow> w \<in> set ks \<Longrightarrow>
   dict_set (map (\<lambda>v. (v, f v)) ks) w c = map (\<lambda>v. (v, if v = w then c else f v)) ks"
  by (induction ks) auto

lemma dict_set_absent:
  "w \<notin> set ks \<Longrightarrow>
   dict_set (map (\<lambda>v. (v, f v)) ks) w c = map (\<lambda>v. (v, f v)) ks @ [(w, c)]"
  by (induction ks) auto

lemma count_words_snoc:
  "count_words (ws @ [w]) word_freq =
     (if w \<notin> stop_words
      then dict_set (count_words ws word_freq) w (dict_get (count_words ws word_freq) w 0 + 1)
      else count_words ws word_freq)"
  by (induction ws arbitrary: word_freq) auto

lemma count_list_snoc: "count_list (xs @ [x]) y = count_list xs y + (if x = y then 1 else 0)"
  by (induction xs) auto

lemma count_list_absent: "y \<notin> set xs \<Longrightarrow> count_list xs y = 0"
  by (induction xs) auto

lemma count_list_filter: "P y \<Longrightarrow> count_list (filter P xs) y = count_list xs y"
  by (induction xs) auto

lemma count_words_counted:
  "count_words ws [] =
     map (\<lambda>v. (v, count_list (filter (\<lambda>w. w \<notin> stop_words) ws) v))
       (first_seen (filter (\<lambda>w. w \<notin> stop_words) ws))"
proof (induction ws rule: rev_induct)
  case Nil
  show ?case by simp
next
  case (snoc w ws)
  let ?kept = "filter (\<lambda>w. w \<notin> stop_words) ws"
  show ?case
  proof (cases "w \<in> stop_words")
    case True
    then show ?thesis
      by (simp add: count_words_snoc snoc.IH)
  next
    case False
    show ?thesis
    proof (cases "w \<in> set ?kept")
      case True
      then have "w \<in> set (first_seen ?kept)"
        by (simp add: set_first_seen)
      then show ?thesis
        using False True
        by (simp add: count_words_snoc snoc.IH dict_get_counted dict_set_present
              distinct_first_seen first_seen_snoc count_list_snoc)
    next
      case absent: False
      then have "w \<notin> set (first_seen ?kept)"
        by (simp add: set_first_seen)
      then show ?thesis
        using False absent
        by (simp add: count_words_snoc snoc.IH dict_get_counted dict_set_absent
              first_seen_snoc count_list_snoc count_list_absent)
           (auto simp: set_first_seen)
    qed
  qed
qed

lemma word_runs_sublist: "w \<in> set (word_runs s cur) \<Longrightarrow> sublist w (cur @ s)"
proof (induction s arbitrary: cur)
  case Nil
  then show ?case by (auto split: if_splits)
next
  case (Cons c cs)
  show ?case
  proof (cases "is_word_char c")
    case True
    with Cons.prems have "w \<in> set (word_runs cs (cur @ [c]))"
      by simp
    then have "sublist w ((cur @ [c]) @ cs)"
      by (rule Cons.IH)
    then show ?thesis by simp
  next
    case False
    with Cons.prems have "w = cur \<or> w \<in> set (word_runs cs [])"
      by (auto split: if_splits)
    then show ?thesis
    proof
      assume "w = cur"
      then show ?thesis by (simp add: sublist_append_rightI)
    next
      assume "w \<in> set (word_runs cs [])"
      then have "sublist w ([] @ cs)"
        by (rule Cons.IH)
      then have "sublist w (c # cs)"
        by (simp add: sublist_Cons_right)
      then show ?thesis
        by (simp add: sublist_append)
    qed
  qed
qed

lemma findall_words_token:
  "w \<in> set (findall_words s) \<Longrightarrow> 4 \<le> length w \<and> list_all is_az w \<and> py_in w s"
  using word_runs_sublist [of w s "[]"] by (auto simp: findall_words_def)


lemma word_freq_counted:
  "count_words (findall_words s) [] =
     map (\<lambda>w. (w, count_list (findall_words s) w))
       (first_seen (filter (\<lambda>w. w \<notin> stop_words) (findall_words s)))"
proof -
  let ?kept = "filter (\<lambda>w. w \<notin> stop_words) (findall_words s)"
  have "count_list ?kept w = count_list (findall_words s) w" if "w \<in> set (first_seen ?kept)" for w
    using that by (intro count_list_filter) (simp add: set_first_seen)
  then show ?thesis
    by (simp add: count_words_counted)
qed

text \<open>
  Claim C6, as amended. For every text and every \<open>top_n\<close> from 0 on, \<open>extract_keywords\<close>
  returns at most \<open>top_n\<close> strings, pairwise different, each a token of the lower-cased text
  (a run of at least 4 letters \<open>a\<close> to \<open>z\<close>, a substring of that text) outside the stop
  words. They are the first \<open>top_n\<close> words of the ranking of the tokens outside the stop words
  by descending number of occurrences, words of equal number in the order in which the text
  first has them: a permutation of the counted words, descending, that keeps the
  first-met order within each number.
\<close>

theorem extract_keywords_ranked:
  assumes "0 \<le> top_n"
  shows "\<exists>ranked.
           mset ranked =
             mset (map (\<lambda>w. (w, count_list (findall_words (lower text)) w))
                     (first_seen (filter (\<lambda>w. w \<notin> stop_words) (findall_words (lower text)))))
           \<and> sorted_wrt (\<lambda>a b. snd b \<le> snd a) ranked
           \<and> (\<forall>k. filter (\<lambda>p. snd p = k) ranked =
                    filter (\<lambda>p. snd p = k)
                      (map (\<lambda>w. (w, count_list (findall_words (lower text)) w))
                         (first_seen
                            (filter (\<lambda>w. w \<notin> stop_words) (findall_words (lower text))))))
           \<and> extract_keywords text top_n = map fst (take (nat top_n) ranked)
           \<and> int (length (extract_keywords text top_n)) \<le> top_n
           \<and> distinct (extract_keywords text top_n)
           \<and> (\<forall>w\<in>set (extract_keywords text top_n).
                 w \<in> set (findall_words (lower text)) \<and> 4 \<le> length w \<and> list_all is_az w
                 \<and> py_in w (lower text) \<and> w \<notin> stop_words)"
proof -
  let ?tokens = "findall_words (lower text)"
  let ?kept = "filter (\<lambda>w. w \<notin> stop_words) ?tokens"
  let ?counted = "map (\<lambda>w. (w, count_list ?tokens w)) (first_seen ?kept)"
  let ?ranked = "sorted_desc snd ?counted"
  have result: "extract_keywords text top_n = map fst (take (nat top_n) ?ranked)"
    using assms by (simp add: extract_keywords_def Let_def word_freq_counted py_upto_def)
  have len: "int (length (extract_keywords text top_n)) \<le> top_n"
    using assms by (simp add: result)
  have perm: "mset ?ranked = mset ?counted"
    by (rule mset_sorted_desc)
  have desc: "sorted_wrt (\<lambda>a b. snd b \<le> snd a) ?ranked"
    by (rule sorted_sorted_desc)
  have stable: "\<forall>k. filter (\<lambda>p. snd p = k) ?ranked = filter (\<lambda>p. snd p = k) ?counted"
    by (intro allI) (rule sorted_desc_stable)
  have "mset (map fst ?ranked) = mset (map fst ?counted)"
    by (simp only: mset_map mset_sorted_desc)
  also have "map fst ?counted = first_seen ?kept"
    by (simp only: map_map comp_def fst_conv map_ident)
  finally have keys: "mset (map fst ?ranked) = mset (first_seen ?kept)" .
  have "distinct (map fst ?ranked) \<longleftrightarrow> distinct (first_seen ?kept)"
    using keys by (rule mset_eq_imp_distinct_iff)
  then have all_distinct: "distinct (map fst ?ranked)"
    by (simp only: distinct_first_seen)
  have shape: "map fst (take (nat top_n) ?ranked) = take (nat top_n) (map fst ?ranked)"
    by (rule take_map [symmetric])
  have dist: "distinct (extract_keywords text top_n)"
    unfolding result shape using all_distinct by (rule distinct_take)
  have "set (map fst ?ranked) = set (first_seen ?kept)"
    using keys by (rule mset_eq_setD)
  then have keys_set: "set (map fst ?ranked) = set ?kept"
    by (simp only: set_first_seen)
  have "set (extract_keywords text top_n) \<subseteq> set (map fst ?ranked)"
    unfolding result shape by (rule set_take_subset)
  then have sub: "set (extract_keywords text top_n) \<subseteq> set ?kept"
    unfolding keys_set .
  have members: "\<forall>w\<in>set (extract_keywords text top_n).
                 w \<in> set ?tokens \<and> 4 \<le> length w \<and> list_all is_az w
                 \<and> py_in w (lower text) \<and> w \<notin> stop_words"
  proof
    fix w
    assume "w \<in> set (extract_keywords text top_n)"
    then have "w \<in> set ?kept"
      using sub by (rule subsetD [rotated])
    then have "w \<in> set ?tokens" and "w \<notin> stop_words"
      by simp_all
    then show "w \<in> set ?tokens \<and> 4 \<le> length w \<and> list_all is_az w
                 \<and> py_in w (lower text) \<and> w \<notin> stop_words"
      using findall_words_token [of w "lower text"] by simp
  qed
  show ?thesis
  proof (intro exI [of _ ?ranked] conjI)
    show "mset ?ranked = mset ?counted" by (rule perm)
    show "sorted_wrt (\<lambda>a b. snd b \<le> snd a) ?ranked" by (rule desc)
    show "\<forall>k. filter (\<lambda>p. snd p = k) ?ranked = filter (\<lambda>p. snd p = k) ?counted"
      by (rule stable)
    show "extract_keywords text top_n = map fst (take (nat top_n) ?ranked)" by (rule result)
    show "int (length (extract_keywords text top_n)) \<le> top_n" by (rule len)
    show "distinct (extract_keywords text top_n)" by (rule dist)
    show "\<forall>w\<in>set (extract_keywords text top_n).
                 w \<in> set ?tokens \<and> 4 \<le> length w \<and> list_all is_az w
                 \<and> py_in w (lower text) \<and> w \<notin> stop_words" by (rule members)
  qed
qed

theorem extract_keywords_ranked_witness:
  "(0::int) \<le> 2
   \<and> extract_keywords ''Solar cells and wind farms: that solar and Wind mix beats coal, coal loses.'' 2
       = [''solar'', ''wind'']
   \<and> int (length (extract_keywords
        ''Solar cells and wind farms: that solar and Wind mix beats coal, coal loses.'' 2)) \<le> 2
   \<and> distinct (extract_keywords
        ''Solar cells and wind farms: that solar and Wind mix beats coal, coal loses.'' 2)"
proof -
  have bound: "(0::int) \<le> 2"
    by simp
  have run: "extract_keywords
      ''Solar cells and wind farms: that solar and Wind mix beats coal, coal loses.'' 2
       = [''solar'', ''wind'']"
    by code_simp
  show ?thesis
    using extract_keywords_ranked [OF bound,
        of "''Solar cells and wind farms: that solar and Wind mix beats coal, coal loses.''"]
      bound run
    by blast
qed

text \<open>A negative \<open>top_n\<close> returns more strings than its value: \<open>- 1\<close> drops the last of
  three ranked words and returns two.\<close>

theorem extract_keywords_counterexample:
  "extract_keywords ''alpha beta gamma beta'' (- 1) = [''beta'', ''alpha'']"
  by code_simp


end
